theory Spec2Isabelle
  imports Main "HOL-Library.Multiset" "HOL-Library.Sublist"
begin

section \<open>The site list of js/state/siteUtil.js\<close>

text \<open>
  A shallow embedding of the functions of \<^verbatim>\<open>js/state/siteUtil.js\<close> that add,
  remove, look up and filter the records of the browser's site list (history entries,
  bookmarks and bookmark folders), and the properties of them that the specification states.
\<close>

subsection \<open>JavaScript values\<close>

text \<open>
  The numeric fields of a site record hold a number, \<^verbatim>\<open>null\<close>, or nothing
  (\<^verbatim>\<open>Map.get\<close> then gives \<^verbatim>\<open>undefined\<close>). The numbers of the data model
  (folder ids, partition numbers, timestamps in milliseconds, visit counts) are integers;
  fractions and \<^verbatim>\<open>NaN\<close> are not values of the model. Where the code adds to a
  number, the rounding of the sum is written out (\<open>plusOne\<close> below).
\<close>

datatype jsnum = Undefined | Null | Num int

text \<open>Truthiness of a numeric field: \<^verbatim>\<open>undefined\<close>, \<^verbatim>\<open>null\<close> and \<^verbatim>\<open>0\<close> are falsy.\<close>

fun truthy :: "jsnum \<Rightarrow> bool" where
  "truthy (Num n) = (n \<noteq> 0)"
| "truthy _ = False"

text \<open>\<^verbatim>\<open>a || b\<close> on numeric values.\<close>

definition orElse :: "jsnum \<Rightarrow> jsnum \<Rightarrow> jsnum" where
  "orElse a b = (if truthy a then a else b)"


text \<open>
  \<^verbatim>\<open>Number(v)\<close>: a number is itself, \<^verbatim>\<open>null\<close> is \<^verbatim>\<open>0\<close>. \<^verbatim>\<open>Number(undefined)\<close>
  is \<^verbatim>\<open>NaN\<close> in JavaScript; every call in \<^verbatim>\<open>mergeSiteDetails\<close> is guarded so that
  its argument is not \<^verbatim>\<open>undefined\<close>, and the model leaves \<^verbatim>\<open>undefined\<close> as it is.
\<close>

fun Number :: "jsnum \<Rightarrow> jsnum" where
  "Number (Num n) = Num n"
| "Number Null = Num 0"
| "Number Undefined = Undefined"

text \<open>
  The operand of an arithmetic operator or of \<^verbatim>\<open>>\<close> as a number: \<^verbatim>\<open>null\<close> counts
  as \<^verbatim>\<open>0\<close>. (The callers never pass \<^verbatim>\<open>undefined\<close>: it is replaced by \<^verbatim>\<open>|| 0\<close> or
  tested for first.)
\<close>

fun toInt :: "jsnum \<Rightarrow> int" where
  "toInt (Num n) = n"
| "toInt _ = 0"

text \<open>
  A JavaScript number is an IEEE 754 double. It holds every integer up to \<open>2 ^ 53\<close> in
  absolute value; a greater one is held when it has at most 53 significant bits, and the
  result of an addition is rounded to such a number, to the nearest one and, half way between
  two, to the one whose last significant bit is \<^verbatim>\<open>0\<close>. (Beyond the largest double, about
  \<open>1.8 * 10 ^ 308\<close>, where JavaScript has \<^verbatim>\<open>Infinity\<close>, there are no values of the
  model.) \<open>bitLength\<close> is the number of bits of a positive integer, and \<open>roundToDouble\<close>
  rounds an integer beyond \<open>2 ^ 53\<close> to a multiple of the distance \<open>ulp\<close> between the doubles
  of its size.
\<close>

function bitLength :: "int \<Rightarrow> nat" where
  "bitLength n = (if n \<le> 0 then 0 else Suc (bitLength (n div 2)))"
  by pat_completeness auto
termination
  by (relation "measure nat") auto

declare bitLength.simps [simp del]

definition roundToDouble :: "int \<Rightarrow> int" where
  "roundToDouble m =
     (if \<bar>m\<bar> \<le> 2 ^ 53 then m
      else (let a = \<bar>m\<bar>;
                ulp = 2 ^ (bitLength a - 53);
                q = a div ulp;
                r = a mod ulp;
                q' = (if 2 * r < ulp then q
                      else if ulp < 2 * r then q + 1
                      else if even q then q else q + 1)
            in sgn m * (q' * ulp)))"

text \<open>\<^verbatim>\<open>n + 1\<close> on numbers.\<close>

definition plusOne :: "int \<Rightarrow> int" where
  "plusOne n = roundToDouble (n + 1)"

text \<open>
  A string field holds a string or nothing: \<open>None\<close> is \<^verbatim>\<open>undefined\<close>. The empty string
  is falsy.
\<close>

fun truthyStr :: "string option \<Rightarrow> bool" where
  "truthyStr (Some s) = (s \<noteq> [])"
| "truthyStr None = False"

text \<open>
  A value of any type, for an argument whose type the code tests (\<^verbatim>\<open>getOrigin\<close>) and
  for the result of the comparator of \<^verbatim>\<open>getNextFolderIdItem\<close>, which returns \<^verbatim>\<open>0\<close>,
  \<^verbatim>\<open>false\<close> or \<^verbatim>\<open>true\<close>.
\<close>

datatype jsvalue = JUndefined | JNull | JBoolean bool | JNumber int | JString string

subsection \<open>Tags and site records\<close>

text \<open>
  Modelled from the spec: the tag constants of \<^verbatim>\<open>js/constants/siteTags\<close>, which is not
  among the sources. The specification gives the enumeration as
  \<open>{BOOKMARK, BOOKMARK_FOLDER, PINNED, ...}\<close>, whose members the code treats as opaque values
  that can be compared; \<open>OTHER_TAG\<close> stands for the members the specification does not name.
  Every member is a non-empty string in JavaScript, hence truthy; a tag argument that is
  left out is \<open>None\<close>.
\<close>

datatype siteTag = BOOKMARK | BOOKMARK_FOLDER | PINNED | OTHER_TAG string

text \<open>
  A site record is an Immutable map with the keys below. A record of the list always has
  a \<open>tags\<close> list (\<^verbatim>\<open>mergeSiteDetails\<close> sets it on every record it builds); a detail
  passed in without tags is modelled by the empty list, which the modelled functions treat
  alike.
\<close>

record site =
  location :: "string option"
  title :: "string option"
  customTitle :: "string option"
  tags :: "siteTag list"
  lastAccessedTime :: jsnum
  count :: jsnum
  folderId :: jsnum
  parentFolderId :: jsnum
  partitionNumber :: jsnum
  favicon :: "string option"
  themeColor :: "string option"

text \<open>The record with no key set but an empty \<open>tags\<close> list.\<close>

definition emptySite :: site where
  "emptySite = \<lparr>location = None, title = None, customTitle = None, tags = [],
     lastAccessedTime = Undefined, count = Undefined, folderId = Undefined,
     parentFolderId = Undefined, partitionNumber = Undefined, favicon = None,
     themeColor = None\<rparr>"

text \<open>
  \<^verbatim>\<open>isBookmark(tags)\<close> and \<^verbatim>\<open>isBookmarkFolder(tags)\<close> are called with a list of tags
  and with a single tag. On a list, \<^verbatim>\<open>includes\<close> is membership.
\<close>

definition isBookmark :: "siteTag list \<Rightarrow> bool" where
  "isBookmark tgs = (BOOKMARK \<in> set tgs)"

definition isBookmarkFolder :: "siteTag list \<Rightarrow> bool" where
  "isBookmarkFolder tgs = (BOOKMARK_FOLDER \<in> set tgs)"

text \<open>
  On a single tag, \<^verbatim>\<open>isBookmarkFolder\<close> compares it with \<^verbatim>\<open>BOOKMARK_FOLDER\<close>, and
  \<^verbatim>\<open>isBookmark\<close> tests whether the tag's text contains the text of \<^verbatim>\<open>BOOKMARK\<close>.
  The texts are not part of the model: a tag other than \<^verbatim>\<open>BOOKMARK\<close> is taken not to
  contain it. At the one call with a single tag, in \<^verbatim>\<open>mergeSiteDetails\<close>, the two tests
  are joined by \<^verbatim>\<open>||\<close>, so the outcome for \<^verbatim>\<open>BOOKMARK_FOLDER\<close> is the same either way.
  A missing tag fails both tests (\<^verbatim>\<open>if (!tags) return false\<close>).
\<close>

definition isBookmarkTag :: "siteTag option \<Rightarrow> bool" where
  "isBookmarkTag tag = (tag = Some BOOKMARK)"

definition isBookmarkFolderTag :: "siteTag option \<Rightarrow> bool" where
  "isBookmarkFolderTag tag = (tag = Some BOOKMARK_FOLDER)"

subsection \<open>Looking a record up\<close>

text \<open>\<^verbatim>\<open>List.findIndex\<close>: the index of the first match; \<open>None\<close> is the source's \<^verbatim>\<open>-1\<close>.\<close>

fun findIndex :: "('a \<Rightarrow> bool) \<Rightarrow> 'a list \<Rightarrow> nat option" where
  "findIndex P [] = None"
| "findIndex P (x # xs) =
     (if P x then Some 0 else case findIndex P xs of None \<Rightarrow> None | Some i \<Rightarrow> Some (Suc i))"

text \<open>
  \<^verbatim>\<open>getSiteIndex(sites, siteDetail, tags)\<close>, called here with a single tag or none. A folder
  is found by its \<open>folderId\<close> among the folders, any other record by its location and its
  partition number, \<^verbatim>\<open>0\<close> when it has none. (The guard for a missing list or detail,
  which gives \<^verbatim>\<open>-1\<close>, is outside the types: both are always given.)
\<close>

definition getSiteIndex :: "site list \<Rightarrow> site \<Rightarrow> siteTag option \<Rightarrow> nat option" where
  "getSiteIndex sites siteDetail tag =
     (if isBookmarkFolderTag tag then
        findIndex (\<lambda>s. isBookmarkFolder (tags s) \<and> folderId s = folderId siteDetail) sites
      else
        findIndex (\<lambda>s. location s = location siteDetail \<and>
                        orElse (partitionNumber s) (Num 0) =
                        orElse (partitionNumber siteDetail) (Num 0)) sites)"

subsection \<open>The next folder id\<close>

text \<open>The comparator that \<^verbatim>\<open>getNextFolderIdItem\<close> passes to \<^verbatim>\<open>max\<close>.\<close>

definition folderIdComparator :: "site \<Rightarrow> site \<Rightarrow> jsvalue" where
  "folderIdComparator siteA siteB =
     (let folderIdA = folderId siteA; folderIdB = folderId siteB in
      if folderIdA = folderIdB then JNumber 0
      else if folderIdA = Undefined then JBoolean False
      else if folderIdB = Undefined then JBoolean True
      else JBoolean (toInt folderIdA > toInt folderIdB))"

text \<open>\<^verbatim>\<open>comp > 0\<close> on the comparator's result: \<^verbatim>\<open>true\<close> is \<^verbatim>\<open>1\<close>, \<^verbatim>\<open>false\<close> is \<^verbatim>\<open>0\<close>.\<close>

fun greaterThanZero :: "jsvalue \<Rightarrow> bool" where
  "greaterThanZero (JBoolean b) = b"
| "greaterThanZero (JNumber n) = (n > 0)"
| "greaterThanZero _ = False"

text \<open>
  Immutable's \<^verbatim>\<open>max(comparator)\<close> reduces the list from its first element: the next
  element \<open>b\<close> replaces the current maximum \<open>a\<close> when \<^verbatim>\<open>comparator(b, a) > 0\<close>. (Its other
  clause, for a \<open>b\<close> that is \<^verbatim>\<open>null\<close>, \<^verbatim>\<open>undefined\<close> or \<^verbatim>\<open>NaN\<close>, never holds of a
  record.) The reduction of an empty list is \<^verbatim>\<open>undefined\<close>, here \<open>None\<close>.
\<close>

fun immutableMax :: "('a \<Rightarrow> 'a \<Rightarrow> jsvalue) \<Rightarrow> 'a list \<Rightarrow> 'a option" where
  "immutableMax comparator [] = None"
| "immutableMax comparator (x # xs) =
     Some (foldl (\<lambda>a b. if greaterThanZero (comparator b a) then b else a) x xs)"

definition getNextFolderIdItem :: "site list \<Rightarrow> site option" where
  "getNextFolderIdItem sites = immutableMax folderIdComparator sites"

text \<open>
  \<^verbatim>\<open>getNextFolderId(sites)\<close>; a missing list (\<open>None\<close>) gives the default \<^verbatim>\<open>0\<close>.
  The sum is a double: from \<open>2 ^ 53\<close> on, adding \<^verbatim>\<open>1\<close> need not give a greater number.
\<close>

definition getNextFolderId :: "site list option \<Rightarrow> int" where
  "getNextFolderId sitesOpt =
     (case sitesOpt of
        None \<Rightarrow> 0
      | Some sites \<Rightarrow>
          plusOne (case getNextFolderIdItem sites of
                     Some maxIdItem \<Rightarrow> toInt (orElse (folderId maxIdItem) (Num 0))
                   | None \<Rightarrow> 0))"

subsection \<open>Merging the details of a record\<close>

text \<open>
  \<^verbatim>\<open>tags.toSet()\<close>, \<^verbatim>\<open>.add(tag)\<close>, \<^verbatim>\<open>.remove(tag)\<close> and \<^verbatim>\<open>.toList()\<close>. An Immutable
  set has no order of its own; the model lists its members in the order of their first
  insertion. (The specification: the order of the tags is not significant.)
\<close>

definition toSet :: "siteTag list \<Rightarrow> siteTag list" where
  "toSet tgs = rev (remdups (rev tgs))"

definition setAdd :: "siteTag \<Rightarrow> siteTag list \<Rightarrow> siteTag list" where
  "setAdd t s = (if t \<in> set s then s else s @ [t])"

definition setRemove :: "siteTag \<Rightarrow> siteTag list \<Rightarrow> siteTag list" where
  "setRemove t s = removeAll t s"

text \<open>
  \<^verbatim>\<open>oldSiteDetail && oldSiteDetail.get(key)\<close>: \<^verbatim>\<open>null\<close> when there is no old record.
  For a string key, \<open>None\<close> stands for every value that is not a string.
\<close>

definition andGet :: "site option \<Rightarrow> (site \<Rightarrow> jsnum) \<Rightarrow> jsnum" where
  "andGet oldSiteDetail f = (case oldSiteDetail of None \<Rightarrow> Null | Some old \<Rightarrow> f old)"

definition andGetStr :: "site option \<Rightarrow> (site \<Rightarrow> string option) \<Rightarrow> string option" where
  "andGetStr oldSiteDetail f = (case oldSiteDetail of None \<Rightarrow> None | Some old \<Rightarrow> f old)"

text \<open>
  \<^verbatim>\<open>mergeSiteDetails(oldSiteDetail, newSiteDetail, tag, folderId)\<close>. The wall-clock time
  \<^verbatim>\<open>new Date().getTime()\<close> is the parameter \<open>now\<close>.
\<close>

definition mergeSiteDetails ::
  "int \<Rightarrow> site option \<Rightarrow> site \<Rightarrow> siteTag option \<Rightarrow> jsnum \<Rightarrow> site" where
  "mergeSiteDetails now oldSiteDetail newSiteDetail tag folderIdArg =
     (let tags0 = (case oldSiteDetail of Some old \<Rightarrow> tags old | None \<Rightarrow> []);
          tags1 = (case tag of Some t \<Rightarrow> setAdd t (toSet tags0) | None \<Rightarrow> tags0);
          customTitle1 = (case customTitle newSiteDetail of
                            Some s \<Rightarrow> Some s
                          | None \<Rightarrow> andGetStr oldSiteDetail customTitle);
          lastAccessedTime1 =
            (if isBookmarkTag tag \<or> isBookmarkFolderTag tag
             then orElse (lastAccessedTime newSiteDetail) (Num 0)
             else orElse (lastAccessedTime newSiteDetail) (Num now));
          site0 = emptySite\<lparr>lastAccessedTime := lastAccessedTime1, tags := tags1,
                     title := title newSiteDetail\<rparr>;
          site1 = (if truthyStr (location newSiteDetail)
                   then site0\<lparr>location := location newSiteDetail\<rparr> else site0);
          site2 = (if truthy folderIdArg
                   then site1\<lparr>folderId := Number folderIdArg\<rparr> else site1);
          site3 = (case customTitle1 of
                     Some s \<Rightarrow> site2\<lparr>customTitle := Some s\<rparr>
                   | None \<Rightarrow> site2);
          site4 = (if parentFolderId newSiteDetail \<noteq> Undefined
                      \<or> truthy (andGet oldSiteDetail parentFolderId)
                   then site3\<lparr>parentFolderId :=
                          Number (if parentFolderId newSiteDetail \<noteq> Undefined
                                  then parentFolderId newSiteDetail
                                  else andGet oldSiteDetail parentFolderId)\<rparr>
                   else site3);
          site5 = (if partitionNumber newSiteDetail \<noteq> Undefined
                      \<or> truthy (andGet oldSiteDetail partitionNumber)
                   then site4\<lparr>partitionNumber :=
                          Number (if partitionNumber newSiteDetail \<noteq> Undefined
                                  then partitionNumber newSiteDetail
                                  else andGet oldSiteDetail partitionNumber)\<rparr>
                   else site4);
          site6 = (if truthyStr (favicon newSiteDetail)
                      \<or> truthyStr (andGetStr oldSiteDetail favicon)
                   then site5\<lparr>favicon :=
                          (if truthyStr (favicon newSiteDetail) then favicon newSiteDetail
                           else andGetStr oldSiteDetail favicon)\<rparr>
                   else site5);
          site7 = (if truthyStr (themeColor newSiteDetail)
                      \<or> truthyStr (andGetStr oldSiteDetail themeColor)
                   then site6\<lparr>themeColor :=
                          (if truthyStr (themeColor newSiteDetail) then themeColor newSiteDetail
                           else andGetStr oldSiteDetail themeColor)\<rparr>
                   else site6)
      in if tags site7 = []
         then site7\<lparr>count :=
                Num (plusOne (toInt (orElse (count (case oldSiteDetail of Some old \<Rightarrow> old
                                                      | None \<Rightarrow> site7)) (Num 0))))\<rparr>
         else site7)"

subsection \<open>Removing a tag, a record, or a folder's children\<close>

text \<open>
  \<^verbatim>\<open>forEach\<close> with a callback that replaces the variable \<^verbatim>\<open>sites\<close>: the list is
  threaded through the calls, and a call that does not return stops everything.
\<close>

fun forEachM :: "('s \<Rightarrow> 'a \<Rightarrow> 's option) \<Rightarrow> 'a list \<Rightarrow> 's \<Rightarrow> 's option" where
  "forEachM f [] s = Some s"
| "forEachM f (x # xs) s = (case f s x of None \<Rightarrow> None | Some s' \<Rightarrow> forEachM f xs s')"

text \<open>\<^verbatim>\<open>sites.splice(index, 1)\<close>: the list without the element at \<open>index\<close>.\<close>

definition splice1 :: "nat \<Rightarrow> 'a list \<Rightarrow> 'a list" where
  "splice1 index xs = take index xs @ drop (Suc index) xs"

text \<open>
  \<^verbatim>\<open>removeSite(sites, siteDetail, tag)\<close>. The function calls itself for every tag of
  every child of a folder, and on a list whose folders contain themselves it never
  returns: the first argument bounds the depth of the calls, and \<open>None\<close> says that the
  bound was reached. The children and their tags are read from the list as it is before the
  loop, the index and the tags of the target as well; the loop only replaces records (a
  tag is always given to the inner calls), so the index stays inside the list.
\<close>

fun removeSite :: "nat \<Rightarrow> site list \<Rightarrow> site \<Rightarrow> siteTag option \<Rightarrow> site list option" where
  "removeSite 0 sites siteDetail tag = None"
| "removeSite (Suc fuel) sites siteDetail tag =
     (case getSiteIndex sites siteDetail tag of
        None \<Rightarrow> Some sites
      | Some index \<Rightarrow>
          (let tgs = tags (sites ! index) in
           case (if isBookmarkFolder tgs then
                   (let fid = folderId (sites ! index);
                        childSites = filter (\<lambda>s. parentFolderId s = fid) sites
                    in forEachM (\<lambda>ss child.
                         forEachM (\<lambda>ss' t. removeSite fuel ss' child (Some t)) (tags child) ss)
                         childSites sites)
                 else Some sites) of
             None \<Rightarrow> None
           | Some sites' \<Rightarrow>
               if tgs = [] \<and> tag = None then
                 Some (splice1 index sites')
               else if tgs \<noteq> [] \<and> tag = None then
                 Some (sites'[index := (sites' ! index)\<lparr>lastAccessedTime := Null\<rparr>])
               else
                 Some (sites'[index := (sites' ! index)\<lparr>parentFolderId := Num 0,
                         customTitle := None,
                         tags := (case tag of Some t \<Rightarrow> setRemove t (toSet tgs)
                                  | None \<Rightarrow> toSet tgs)\<rparr>])))"

subsection \<open>Adding or updating a record\<close>

text \<open>
  The test of the duplicate search in \<^verbatim>\<open>addSite\<close>: a folder with the \<open>parentFolderId\<close>
  and the \<open>customTitle\<close> of the detail.
\<close>

definition isDuplicateFolder :: "site \<Rightarrow> site \<Rightarrow> bool" where
  "isDuplicateFolder siteDetail s =
     (isBookmarkFolder (tags s) \<and>
      parentFolderId s = parentFolderId siteDetail \<and>
      customTitle s = customTitle siteDetail)"

text \<open>
  The tag of \<^verbatim>\<open>addSite\<close>: a tag that is left out is the first tag of the detail,
  \<^verbatim>\<open>siteDetail.getIn(['tags', 0])\<close>, if it has one.
\<close>

definition tagOrFirst :: "siteTag option \<Rightarrow> site \<Rightarrow> siteTag option" where
  "tagOrFirst tagArg siteDetail =
     (case tagArg of
        None \<Rightarrow> (case tags siteDetail of [] \<Rightarrow> None | t # _ \<Rightarrow> Some t)
      | Some t \<Rightarrow> Some t)"

text \<open>
  \<^verbatim>\<open>addSite(sites, siteDetail, tag, originalSiteDetail)\<close>. The first argument is the
  bound passed on to \<^verbatim>\<open>removeSite\<close>, which is called on the import path of a folder
  only; the second is the wall-clock time for \<^verbatim>\<open>mergeSiteDetails\<close>.
\<close>

definition addSite ::
  "nat \<Rightarrow> int \<Rightarrow> site list \<Rightarrow> site \<Rightarrow> siteTag option \<Rightarrow> site option \<Rightarrow> site list option" where
  "addSite fuel now sites siteDetail tagArg originalSiteDetail =
     (let tag = tagOrFirst tagArg siteDetail;
          index = getSiteIndex sites
                    (case originalSiteDetail of Some orig \<Rightarrow> orig | None \<Rightarrow> siteDetail) tag;
          oldSite = (case index of Some i \<Rightarrow> Some (sites ! i) | None \<Rightarrow> None);
          fid = folderId siteDetail
      in case (if tag = Some BOOKMARK_FOLDER then
                 (if oldSite = None \<and> truthy fid then
                    (case find (isDuplicateFolder siteDetail) sites of
                       Some dupFolder \<Rightarrow>
                         (case removeSite fuel sites dupFolder (Some BOOKMARK_FOLDER) of
                            None \<Rightarrow> None
                          | Some sites' \<Rightarrow> Some (sites', fid))
                     | None \<Rightarrow> Some (sites, fid))
                  else if \<not> truthy fid then
                    Some (sites, Num (getNextFolderId (Some sites)))
                  else Some (sites, fid))
               else Some (sites, fid)) of
           None \<Rightarrow> None
         | Some (sites', fid') \<Rightarrow>
             (let site = mergeSiteDetails now oldSite siteDetail tag fid'
              in case index of
                   None \<Rightarrow> Some (sites' @ [site])
                 | Some i \<Rightarrow> Some (sites'[i := site])))"

subsection \<open>Moving a folder\<close>




subsection \<open>The recent history\<close>

text \<open>
  Immutable's \<^verbatim>\<open>sort(comparator)\<close> is stable: elements that the comparator does not
  order keep their order. Insertion from the right, in front of the first element that
  does not come before, computes it.
\<close>

fun insertBy :: "('a \<Rightarrow> 'a \<Rightarrow> int) \<Rightarrow> 'a \<Rightarrow> 'a list \<Rightarrow> 'a list" where
  "insertBy comparator x [] = [x]"
| "insertBy comparator x (y # ys) =
     (if comparator x y \<le> 0 then x # y # ys else y # insertBy comparator x ys)"

definition immutableSort :: "('a \<Rightarrow> 'a \<Rightarrow> int) \<Rightarrow> 'a list \<Rightarrow> 'a list" where
  "immutableSort comparator xs = foldr (insertBy comparator) xs []"

text \<open>
  The comparator of \<^verbatim>\<open>filterOutNonRecents\<close>. The difference is a double; the sort reads
  its sign only, which is the sign of the exact difference.
\<close>

definition recentComparator :: "site \<Rightarrow> site \<Rightarrow> int" where
  "recentComparator site1 site2 =
     toInt (orElse (lastAccessedTime site2) (Num 0)) -
     toInt (orElse (lastAccessedTime site1) (Num 0))"

text \<open>
  \<^verbatim>\<open>filterOutNonRecents(sites)\<close>. The setting \<^verbatim>\<open>AUTOCOMPLETE_HISTORY_SIZE\<close> that
  \<^verbatim>\<open>getSetting\<close> reads is the parameter \<open>historySize\<close>; Immutable's \<^verbatim>\<open>take\<close> of a
  negative amount takes nothing.
\<close>

definition filterOutNonRecents :: "int \<Rightarrow> site list \<Rightarrow> site list" where
  "filterOutNonRecents historySize sites =
     (let sitesWithTags = filter (\<lambda>s. tags s \<noteq> []) sites;
          topHistorySites =
            take (nat historySize)
              (immutableSort recentComparator (filter (\<lambda>s. tags s = []) sites))
      in sitesWithTags @ topHistorySites)"

subsection \<open>The origin of a location\<close>

text \<open>
  The fields that \<^verbatim>\<open>getOrigin\<close> reads of the object that Node's \<^verbatim>\<open>url.parse\<close>
  returns; a field that is \<^verbatim>\<open>null\<close> is \<open>None\<close>, and \<open>slashes\<close> is read for its truth
  only. The parser is a library function and a parameter of the model.
\<close>

record parsedUrl =
  protocol :: "string option"
  slashes :: bool
  host :: "string option"

definition getOrigin :: "(string \<Rightarrow> parsedUrl) \<Rightarrow> jsvalue \<Rightarrow> string option" where
  "getOrigin urlParse loc =
     (case loc of
        JString s \<Rightarrow>
          if prefix ''file://'' s then Some ''file:///''
          else (let parsed = urlParse s in
                case (host parsed, protocol parsed) of
                  (Some h, Some p) \<Rightarrow>
                    if truthyStr (Some h) \<and> truthyStr (Some p) then
                      (if slashes parsed then Some (p @ ''//'' @ h) else Some (p @ h))
                    else None
                | _ \<Rightarrow> None)
      | _ \<Rightarrow> None)"

subsection \<open>Example records\<close>

text \<open>A folder with the id 1, two history entries inside it, and a bookmark.\<close>

definition exFolder :: site where
  "exFolder = emptySite\<lparr>customTitle := Some ''Folder'', tags := [BOOKMARK_FOLDER],
     folderId := Num 1\<rparr>"

definition exChild1 :: site where
  "exChild1 = emptySite\<lparr>location := Some ''https://a.example/'', lastAccessedTime := Num 10,
     count := Num 1, parentFolderId := Num 1\<rparr>"

definition exChild2 :: site where
  "exChild2 = emptySite\<lparr>location := Some ''https://b.example/'', lastAccessedTime := Num 20,
     count := Num 1, parentFolderId := Num 1\<rparr>"

definition exBookmark :: site where
  "exBookmark = emptySite\<lparr>location := Some ''https://c.example/'', tags := [BOOKMARK],
     lastAccessedTime := Num 30\<rparr>"

text \<open>
  A parser for the examples: it gives for the URL of the specification's example what
  Node's \<^verbatim>\<open>url.parse\<close> gives, and finds neither protocol nor host in any other string.
\<close>

definition exUrlParse :: "string \<Rightarrow> parsedUrl" where
  "exUrlParse s =
     (if s = ''https://example.com:8080/path''
      then \<lparr>protocol = Some ''https:'', slashes = True, host = Some ''example.com:8080''\<rparr>
      else \<lparr>protocol = None, slashes = False, host = None\<rparr>)"




text \<open>A history entry whose location is the empty string.\<close>

definition exEmptyLocation :: site where
  "exEmptyLocation = emptySite\<lparr>location := Some ''''\<rparr>"

text \<open>The record that \<^verbatim>\<open>addSite\<close> builds from it at the time 1000.\<close>

definition exAddedEmptyLocation :: site where
  "exAddedEmptyLocation = emptySite\<lparr>lastAccessedTime := Num 1000, count := Num 1\<rparr>"

text \<open>
  The details of a new folder without an id, and the folder record that \<^verbatim>\<open>addSite\<close>
  builds from them with the id \<open>n\<close>.
\<close>

definition exNewFolder :: site where
  "exNewFolder = emptySite\<lparr>customTitle := Some ''Folder''\<rparr>"

definition exAddedFolder :: "int \<Rightarrow> site" where
  "exAddedFolder n = emptySite\<lparr>customTitle := Some ''Folder'', tags := [BOOKMARK_FOLDER],
     lastAccessedTime := Num 0, folderId := Num n\<rparr>"

text \<open>The details of two imported folders with the same title, with the ids 1 and 2.\<close>

definition exImport1 :: site where
  "exImport1 = exNewFolder\<lparr>folderId := Num 1\<rparr>"

definition exImport2 :: site where
  "exImport2 = exNewFolder\<lparr>folderId := Num 2\<rparr>"

text \<open>A folder whose id is \<open>2 ^ 53\<close>.\<close>

definition exHugeFolder :: site where
  "exHugeFolder = emptySite\<lparr>customTitle := Some ''Huge'', tags := [BOOKMARK_FOLDER],
     folderId := Num 9007199254740992\<rparr>"

section \<open>Properties\<close>

lemmas ex_defs = exFolder_def exChild1_def exChild2_def exBookmark_def emptySite_def

subsection \<open>Auxiliary facts\<close>

lemma findIndex_SomeD:
  "findIndex P xs = Some i \<Longrightarrow> i < length xs \<and> P (xs ! i) \<and> (\<forall>j<i. \<not> P (xs ! j))"
proof (induction xs arbitrary: i)
  case Nil
  then show ?case by simp
next
  case (Cons x xs)
  show ?case
  proof (cases "P x")
    case True
    with Cons.prems show ?thesis by simp
  next
    case False
    with Cons.prems obtain k where k: "findIndex P xs = Some k" "i = Suc k"
      by (auto split: option.splits)
    from Cons.IH[OF k(1)] False k(2) show ?thesis
      by (auto simp: less_Suc_eq_0_disj)
  qed
qed

lemma findIndex_None_iff: "findIndex P xs = None \<longleftrightarrow> (\<forall>x\<in>set xs. \<not> P x)"
  by (induction xs) (auto split: option.splits)

lemma option_case_same: "(case x of None \<Rightarrow> a | Some y \<Rightarrow> a) = a"
  by (cases x) simp_all

text \<open>Adding \<^verbatim>\<open>1\<close> is exact while the sum is at most \<open>2 ^ 53\<close> in absolute value.\<close>

lemma plusOne_exact: "\<bar>n + 1\<bar> \<le> 2 ^ 53 \<Longrightarrow> plusOne n = n + 1"
  by (simp add: plusOne_def roundToDouble_def)

lemma plusOne_0: "plusOne 0 = 1"
  by (simp add: plusOne_exact)

lemma plusOne_1: "plusOne 1 = 2"
  by (simp add: plusOne_exact)

text \<open>The fields of a merged record, one at a time.\<close>

lemma merge_location_eq:
  "location (mergeSiteDetails now oldSiteDetail newSiteDetail tag folderIdArg) =
     (if truthyStr (location newSiteDetail) then location newSiteDetail else None)"
  unfolding mergeSiteDetails_def Let_def
  by (simp add: if_distrib[where f=location] option.case_distrib[where h=location]
        option_case_same emptySite_def split del: if_split cong: if_cong option.case_cong)

lemma merge_partitionNumber_eq:
  "partitionNumber (mergeSiteDetails now oldSiteDetail newSiteDetail tag folderIdArg) =
     (if partitionNumber newSiteDetail \<noteq> Undefined \<or> truthy (andGet oldSiteDetail partitionNumber)
      then Number (if partitionNumber newSiteDetail \<noteq> Undefined
                   then partitionNumber newSiteDetail
                   else andGet oldSiteDetail partitionNumber)
      else Undefined)"
  unfolding mergeSiteDetails_def Let_def
  by (simp add: if_distrib[where f=partitionNumber] option.case_distrib[where h=partitionNumber]
        option_case_same emptySite_def split del: if_split cong: if_cong option.case_cong)

lemma merge_parentFolderId_eq:
  "parentFolderId (mergeSiteDetails now oldSiteDetail newSiteDetail tag folderIdArg) =
     (if parentFolderId newSiteDetail \<noteq> Undefined \<or> truthy (andGet oldSiteDetail parentFolderId)
      then Number (if parentFolderId newSiteDetail \<noteq> Undefined
                   then parentFolderId newSiteDetail
                   else andGet oldSiteDetail parentFolderId)
      else Undefined)"
  unfolding mergeSiteDetails_def Let_def
  by (simp add: if_distrib[where f=parentFolderId] option.case_distrib[where h=parentFolderId]
        option_case_same emptySite_def split del: if_split cong: if_cong option.case_cong)

lemma merge_folderId_eq:
  "folderId (mergeSiteDetails now oldSiteDetail newSiteDetail tag folderIdArg) =
     (if truthy folderIdArg then Number folderIdArg else Undefined)"
  unfolding mergeSiteDetails_def Let_def
  by (simp add: if_distrib[where f=folderId] option.case_distrib[where h=folderId]
        option_case_same emptySite_def split del: if_split cong: if_cong option.case_cong)

lemma merge_tags_eq:
  "tags (mergeSiteDetails now oldSiteDetail newSiteDetail tag folderIdArg) =
     (case tag of
        Some t \<Rightarrow> setAdd t (toSet (case oldSiteDetail of Some old \<Rightarrow> tags old | None \<Rightarrow> []))
      | None \<Rightarrow> (case oldSiteDetail of Some old \<Rightarrow> tags old | None \<Rightarrow> []))"
  unfolding mergeSiteDetails_def Let_def
  by (simp add: if_distrib[where f=tags] option.case_distrib[where h=tags]
        option_case_same emptySite_def split del: if_split cong: if_cong option.case_cong)

lemma merge_customTitle_eq:
  "customTitle (mergeSiteDetails now oldSiteDetail newSiteDetail tag folderIdArg) =
     (case customTitle newSiteDetail of
        Some s \<Rightarrow> Some s
      | None \<Rightarrow> andGetStr oldSiteDetail customTitle)"
  unfolding mergeSiteDetails_def Let_def
  apply (simp add: if_distrib[where f=customTitle] option.case_distrib[where h=customTitle]
        option_case_same emptySite_def split del: if_split cong: if_cong option.case_cong)
  apply (simp split: option.splits)
  done

text \<open>
  A relation between lists that every call of a loop's body establishes, and that is
  reflexive and transitive, holds between the list before the loop and the list after it.
\<close>

lemma forEachM_rel:
  assumes refl: "\<And>s. R s s"
    and trans: "\<And>a b c. R a b \<Longrightarrow> R b c \<Longrightarrow> R a c"
    and step: "\<And>s x s'. x \<in> set xs \<Longrightarrow> f s x = Some s' \<Longrightarrow> R s s'"
    and run: "forEachM f xs s = Some s'"
  shows "R s s'"
  using step run
proof (induction xs arbitrary: s)
  case Nil
  then show ?case by (simp add: refl)
next
  case (Cons x xs)
  from Cons.prems(2) obtain s1 where s1: "f s x = Some s1" "forEachM f xs s1 = Some s'"
    by (auto split: option.splits)
  have "R s s1" using Cons.prems(1)[of x s s1] s1(1) by simp
  moreover have "R s1 s'"
  proof (rule Cons.IH[OF _ s1(2)])
    fix t y t'
    assume "y \<in> set xs" "f t y = Some t'"
    then show "R t t'" using Cons.prems(1)[of y t t'] by simp
  qed
  ultimately show ?case by (rule trans)
qed

lemma getSiteIndex_less:
  "getSiteIndex sites siteDetail tag = Some i \<Longrightarrow> i < length sites"
  by (auto simp: getSiteIndex_def dest: findIndex_SomeD split: if_splits)


text \<open>
  When a tag is requested, \<^verbatim>\<open>removeSite\<close> only replaces records, the children of a
  folder included: the list keeps its length, and a record that is not the one it was has
  lost its \<open>customTitle\<close>; so has the record at the index of the target.
\<close>

lemma removeSite_tag_rel:
  "removeSite n sites d (Some t) = Some sites' \<Longrightarrow>
     length sites' = length sites \<and>
     (\<forall>i<length sites. sites' ! i = sites ! i \<or> customTitle (sites' ! i) = None) \<and>
     (\<forall>i. getSiteIndex sites d (Some t) = Some i \<longrightarrow> customTitle (sites' ! i) = None)"
proof (induction n arbitrary: sites d t sites')
  case 0
  then show ?case by simp
next
  case (Suc n)
  define R :: "site list \<Rightarrow> site list \<Rightarrow> bool" where
    "R = (\<lambda>a b. length b = length a \<and>
               (\<forall>i<length a. b ! i = a ! i \<or> customTitle (b ! i) = None))"
  have refl: "\<And>s. R s s" by (simp add: R_def)
  have trans: "\<And>a b c. R a b \<Longrightarrow> R b c \<Longrightarrow> R a c"
    unfolding R_def by (metis (no_types, lifting))
  define inner where "inner = (\<lambda>child ss' t. removeSite n ss' child (Some t))"
  define outer where "outer = (\<lambda>ss child. forEachM (inner child) (tags child) ss)"
  have inner_R: "\<And>child s x s'. inner child s x = Some s' \<Longrightarrow> R s s'"
    using Suc.IH by (simp add: inner_def R_def)
  have outer_R: "\<And>s child s'. outer s child = Some s' \<Longrightarrow> R s s'"
  proof -
    fix s child s'
    assume "outer s child = Some s'"
    then have run: "forEachM (inner child) (tags child) s = Some s'" by (simp add: outer_def)
    show "R s s'"
      using forEachM_rel[where R=R and f="inner child" and xs="tags child" and s=s and s'=s']
        refl trans inner_R run by blast
  qed
  show ?case
  proof (cases "getSiteIndex sites d (Some t)")
    case None
    with Suc.prems have "sites' = sites" by simp
    with None show ?thesis by simp
  next
    case (Some index)
    then have idx: "index < length sites" by (rule getSiteIndex_less)
    let ?tgs = "tags (sites ! index)"
    let ?children = "filter (\<lambda>s. parentFolderId s = folderId (sites ! index)) sites"
    let ?casc = "if isBookmarkFolder ?tgs then forEachM outer ?children sites else Some sites"
    from Suc.prems Some obtain X where casc: "?casc = Some X"
      and res: "sites' = X[index := (X ! index)\<lparr>parentFolderId := Num 0, customTitle := None,
                       tags := setRemove t (toSet ?tgs)\<rparr>]"
      by (auto simp: Let_def outer_def inner_def split: option.splits if_splits)
    have RX: "R sites X"
    proof (cases "isBookmarkFolder ?tgs")
      case False
      with casc have "X = sites" by simp
      then show ?thesis by (simp add: refl)
    next
      case True
      with casc have run: "forEachM outer ?children sites = Some X" by simp
      show ?thesis
        using forEachM_rel[where R=R and f=outer and xs="?children" and s=sites and s'=X]
          refl trans outer_R run by blast
    qed
    then have lenX: "length X = length sites" by (simp add: R_def)
    have "R X sites'"
      unfolding R_def
    proof (intro conjI allI impI)
      show "length sites' = length X" by (simp add: res)
    next
      fix i
      assume "i < length X"
      then show "sites' ! i = X ! i \<or> customTitle (sites' ! i) = None"
        by (cases "i = index") (simp_all add: res)
    qed
    with RX have "R sites sites'" by (rule trans)
    moreover have "customTitle (sites' ! index) = None"
      using idx lenX by (simp add: res)
    ultimately show ?thesis using Some by (simp add: R_def)
  qed
qed

text \<open>
  The bound does not change what \<^verbatim>\<open>removeSite\<close> and \<^verbatim>\<open>addSite\<close> return: a result
  reached within a bound is the result within every greater bound.
\<close>

lemma forEachM_mono:
  assumes "\<And>s x r. x \<in> set xs \<Longrightarrow> f s x = Some r \<Longrightarrow> g s x = Some r"
    and "forEachM f xs s = Some r"
  shows "forEachM g xs s = Some r"
  using assms
proof (induction xs arbitrary: s)
  case Nil
  then show ?case by simp
next
  case (Cons x xs)
  from Cons.prems(2) obtain s1 where s1: "f s x = Some s1" "forEachM f xs s1 = Some r"
    by (auto split: option.splits)
  from Cons.prems(1)[of x s s1] s1(1) have g1: "g s x = Some s1" by simp
  have "forEachM g xs s1 = Some r"
  proof (rule Cons.IH[OF _ s1(2)])
    fix t y q
    assume "y \<in> set xs" "f t y = Some q"
    then show "g t y = Some q" using Cons.prems(1)[of y t q] by simp
  qed
  with g1 show ?case by simp
qed

lemma removeSite_more_fuel:
  "removeSite n sites d tag = Some r \<Longrightarrow> removeSite (Suc n) sites d tag = Some r"
proof (induction n arbitrary: sites d tag r)
  case 0
  then show ?case by simp
next
  case (Suc n)
  define inner where "inner = (\<lambda>k child ss' t. removeSite k ss' child (Some t))"
  define outer where "outer = (\<lambda>k ss child. forEachM (inner k child) (tags child) ss)"
  have inner_mono: "\<And>child s x q. inner n child s x = Some q \<Longrightarrow> inner (Suc n) child s x = Some q"
    using Suc.IH by (simp add: inner_def)
  have outer_mono: "\<And>s child q. outer n s child = Some q \<Longrightarrow> outer (Suc n) s child = Some q"
  proof -
    fix s child q
    assume "outer n s child = Some q"
    then have "forEachM (inner n child) (tags child) s = Some q" by (simp add: outer_def)
    then have "forEachM (inner (Suc n) child) (tags child) s = Some q"
      using forEachM_mono[where f="inner n child" and g="inner (Suc n) child"] inner_mono
      by blast
    then show "outer (Suc n) s child = Some q" by (simp add: outer_def)
  qed
  show ?case
  proof (cases "getSiteIndex sites d tag")
    case None
    with Suc.prems show ?thesis by simp
  next
    case (Some index)
    let ?tgs = "tags (sites ! index)"
    let ?children = "filter (\<lambda>s. parentFolderId s = folderId (sites ! index)) sites"
    show ?thesis
    proof (cases "isBookmarkFolder ?tgs")
      case False
      with Suc.prems Some show ?thesis by (simp add: Let_def)
    next
      case True
      from Suc.prems Some True obtain X where
        run: "forEachM (outer n) ?children sites = Some X"
        by (auto simp: Let_def outer_def inner_def split: option.splits)
      then have run': "forEachM (outer (Suc n)) ?children sites = Some X"
        using forEachM_mono[where f="outer n" and g="outer (Suc n)"] outer_mono by blast
      have e1: "removeSite (Suc n) sites d tag =
        (case forEachM (outer n) ?children sites of None \<Rightarrow> None
         | Some sites' \<Rightarrow>
               if ?tgs = [] \<and> tag = None then
                 Some (splice1 index sites')
               else if ?tgs \<noteq> [] \<and> tag = None then
                 Some (sites'[index := (sites' ! index)\<lparr>lastAccessedTime := Null\<rparr>])
               else
                 Some (sites'[index := (sites' ! index)\<lparr>parentFolderId := Num 0,
                         customTitle := None,
                         tags := (case tag of Some t \<Rightarrow> setRemove t (toSet ?tgs)
                                  | None \<Rightarrow> toSet ?tgs)\<rparr>]))"
        using Some True by (simp add: Let_def outer_def inner_def)
      have e2: "removeSite (Suc (Suc n)) sites d tag =
        (case forEachM (outer (Suc n)) ?children sites of None \<Rightarrow> None
         | Some sites' \<Rightarrow>
               if ?tgs = [] \<and> tag = None then
                 Some (splice1 index sites')
               else if ?tgs \<noteq> [] \<and> tag = None then
                 Some (sites'[index := (sites' ! index)\<lparr>lastAccessedTime := Null\<rparr>])
               else
                 Some (sites'[index := (sites' ! index)\<lparr>parentFolderId := Num 0,
                         customTitle := None,
                         tags := (case tag of Some t \<Rightarrow> setRemove t (toSet ?tgs)
                                  | None \<Rightarrow> toSet ?tgs)\<rparr>]))"
        using Some True
        by (subst removeSite.simps(2)) (simp add: Let_def outer_def inner_def)
      from Suc.prems show ?thesis unfolding e1 e2 run run' by simp
    qed
  qed
qed

lemma addSite_more_fuel:
  assumes "addSite n now sites d tag orig = Some r"
  shows "addSite (Suc n) now sites d tag orig = Some r"
proof -
  define idx where
    "idx = getSiteIndex sites (case orig of Some x \<Rightarrow> x | None \<Rightarrow> d) (tagOrFirst tag d)"
  define G where "G = (\<lambda>rm.
     case (if tagOrFirst tag d = Some BOOKMARK_FOLDER then
             (if (case idx of Some i \<Rightarrow> Some (sites ! i) | None \<Rightarrow> None) = None \<and>
                 truthy (folderId d) then
                (case find (isDuplicateFolder d) sites of
                   Some dupFolder \<Rightarrow>
                     (case rm dupFolder of
                        None \<Rightarrow> None
                      | Some sites' \<Rightarrow> Some (sites', folderId d))
                 | None \<Rightarrow> Some (sites, folderId d))
              else if \<not> truthy (folderId d) then
                Some (sites, Num (getNextFolderId (Some sites)))
              else Some (sites, folderId d))
           else Some (sites, folderId d)) of
       None \<Rightarrow> None
     | Some (sites', fid') \<Rightarrow>
         (case idx of
            None \<Rightarrow> Some (sites' @ [mergeSiteDetails now
                     (case idx of Some i \<Rightarrow> Some (sites ! i) | None \<Rightarrow> None) d
                     (tagOrFirst tag d) fid'])
          | Some i \<Rightarrow> Some (sites'[i := mergeSiteDetails now
                     (case idx of Some i \<Rightarrow> Some (sites ! i) | None \<Rightarrow> None) d
                     (tagOrFirst tag d) fid'])))"
  have unfold: "\<And>k. addSite k now sites d tag orig =
      G (\<lambda>dupFolder. removeSite k sites dupFolder (Some BOOKMARK_FOLDER))"
    by (simp only: addSite_def Let_def G_def idx_def)
  have mono: "\<And>f g q. (\<And>x y. f x = Some y \<Longrightarrow> g x = Some y) \<Longrightarrow> G f = Some q \<Longrightarrow> G g = Some q"
    unfolding G_def by (auto split: option.splits if_splits)
  show ?thesis
    using assms removeSite_more_fuel
      mono[of "\<lambda>dupFolder. removeSite n sites dupFolder (Some BOOKMARK_FOLDER)"
              "\<lambda>dupFolder. removeSite (Suc n) sites dupFolder (Some BOOKMARK_FOLDER)" r]
    unfolding unfold by blast
qed

subsection \<open>The last access time of a merged record\<close>

text \<open>
  C8. In \<^verbatim>\<open>mergeSiteDetails\<close>, when the tag is \<^verbatim>\<open>BOOKMARK\<close> or \<^verbatim>\<open>BOOKMARK_FOLDER\<close>
  the \<open>lastAccessedTime\<close> of the result is that of the new details if it is truthy and
  \<^verbatim>\<open>0\<close> otherwise; for any other tag, and for none, it is that of the new details if it is
  truthy and the wall-clock time otherwise.
\<close>

theorem merge_lastAccessedTime:
  "lastAccessedTime (mergeSiteDetails now oldSiteDetail newSiteDetail tag folderIdArg) =
     (if tag = Some BOOKMARK \<or> tag = Some BOOKMARK_FOLDER
      then (if truthy (lastAccessedTime newSiteDetail)
            then lastAccessedTime newSiteDetail else Num 0)
      else (if truthy (lastAccessedTime newSiteDetail)
            then lastAccessedTime newSiteDetail else Num now))"
  unfolding mergeSiteDetails_def Let_def
  by (simp add: if_distrib[where f=lastAccessedTime] option.case_distrib[where h=lastAccessedTime]
        option_case_same isBookmarkTag_def isBookmarkFolderTag_def orElse_def
        split del: if_split cong: if_cong option.case_cong)

theorem merge_lastAccessedTime_witness:
  "lastAccessedTime (mergeSiteDetails 1000 None exFolder (Some BOOKMARK_FOLDER) (Num 1)) = Num 0 \<and>
   lastAccessedTime (mergeSiteDetails 1000 None exBookmark (Some BOOKMARK) Undefined) = Num 30 \<and>
   lastAccessedTime (mergeSiteDetails 1000 None exFolder (Some PINNED) Undefined) = Num 1000 \<and>
   lastAccessedTime (mergeSiteDetails 1000 None exChild1 None Undefined) = Num 10"
  using merge_lastAccessedTime [of 1000 None exFolder "Some BOOKMARK_FOLDER" "Num 1"]
    merge_lastAccessedTime [of 1000 None exBookmark "Some BOOKMARK" Undefined]
    merge_lastAccessedTime [of 1000 None exFolder "Some PINNED" Undefined]
    merge_lastAccessedTime [of 1000 None exChild1 None Undefined]
  by (simp add: ex_defs)

subsection \<open>Removing from a record that is not a folder\<close>

text \<open>
  C9. When \<^verbatim>\<open>removeSite\<close> is called without a tag and the record it finds is not a
  folder and has tags, the result is the list with the \<open>lastAccessedTime\<close> of that record
  set to \<^verbatim>\<open>null\<close>: the record stays at its index, its other fields and all other
  records are unchanged.
\<close>

theorem remove_without_tag_clears_history:
  assumes "getSiteIndex sites siteDetail None = Some i"
    and "tags (sites ! i) \<noteq> []"
    and "\<not> isBookmarkFolder (tags (sites ! i))"
  shows "removeSite (Suc fuel) sites siteDetail None =
           Some (sites[i := (sites ! i)\<lparr>lastAccessedTime := Null\<rparr>])"
  using assms by (simp add: Let_def)

theorem remove_without_tag_clears_history_witness:
  "getSiteIndex [exFolder, exBookmark] exBookmark None = Some 1 \<and>
   tags ([exFolder, exBookmark] ! 1) \<noteq> [] \<and>
   \<not> isBookmarkFolder (tags ([exFolder, exBookmark] ! 1)) \<and>
   removeSite (Suc 0) [exFolder, exBookmark] exBookmark None =
     Some [exFolder, exBookmark\<lparr>lastAccessedTime := Null\<rparr>]"
proof -
  have h1: "getSiteIndex [exFolder, exBookmark] exBookmark None = Some 1"
    by (simp add: getSiteIndex_def isBookmarkFolderTag_def ex_defs)
  have h2: "tags ([exFolder, exBookmark] ! 1) \<noteq> []"
    by (simp add: ex_defs)
  have h3: "\<not> isBookmarkFolder (tags ([exFolder, exBookmark] ! 1))"
    by (simp add: isBookmarkFolder_def ex_defs)
  from remove_without_tag_clears_history [OF h1 h2 h3, of 0] h1 h2 h3
  show ?thesis by simp
qed

text \<open>
  C10. When \<^verbatim>\<open>removeSite\<close> is called with a tag and its target is not a folder, no
  record is deleted: a list without the target is returned as it is, and otherwise the
  record found stays at its index with the tag removed, \<open>parentFolderId\<close> set to \<^verbatim>\<open>0\<close>
  and \<open>customTitle\<close> deleted. The result has the length of the list. (With a tag, whatever
  the target, every list that \<^verbatim>\<open>removeSite\<close> returns has the length of the list.)
\<close>

theorem remove_tag_keeps_record:
  assumes "\<forall>i. getSiteIndex sites siteDetail (Some t) = Some i \<longrightarrow>
             \<not> isBookmarkFolder (tags (sites ! i))"
  shows "removeSite (Suc fuel) sites siteDetail (Some t) =
           Some (case getSiteIndex sites siteDetail (Some t) of
                   None \<Rightarrow> sites
                 | Some i \<Rightarrow> sites[i := (sites ! i)\<lparr>parentFolderId := Num 0,
                               customTitle := None,
                               tags := setRemove t (toSet (tags (sites ! i)))\<rparr>])
         \<and> length (case getSiteIndex sites siteDetail (Some t) of
                     None \<Rightarrow> sites
                   | Some i \<Rightarrow> sites[i := (sites ! i)\<lparr>parentFolderId := Num 0,
                               customTitle := None,
                               tags := setRemove t (toSet (tags (sites ! i)))\<rparr>]) = length sites
         \<and> (\<forall>n anyDetail sites'. removeSite n sites anyDetail (Some t) = Some sites' \<longrightarrow>
               length sites' = length sites)"
proof (intro conjI allI impI)
  show "removeSite (Suc fuel) sites siteDetail (Some t) =
           Some (case getSiteIndex sites siteDetail (Some t) of
                   None \<Rightarrow> sites
                 | Some i \<Rightarrow> sites[i := (sites ! i)\<lparr>parentFolderId := Num 0,
                               customTitle := None,
                               tags := setRemove t (toSet (tags (sites ! i)))\<rparr>])"
    using assms by (cases "getSiteIndex sites siteDetail (Some t)") (simp_all add: Let_def)
next
  show "length (case getSiteIndex sites siteDetail (Some t) of
                     None \<Rightarrow> sites
                   | Some i \<Rightarrow> sites[i := (sites ! i)\<lparr>parentFolderId := Num 0,
                               customTitle := None,
                               tags := setRemove t (toSet (tags (sites ! i)))\<rparr>]) = length sites"
    by (cases "getSiteIndex sites siteDetail (Some t)") simp_all
next
  fix n anyDetail sites'
  assume "removeSite n sites anyDetail (Some t) = Some sites'"
  from removeSite_tag_rel[OF this] show "length sites' = length sites" by simp
qed

theorem remove_tag_keeps_record_witness:
  "getSiteIndex [exFolder, exBookmark] exBookmark (Some BOOKMARK) = Some 1 \<and>
   \<not> isBookmarkFolder (tags ([exFolder, exBookmark] ! 1)) \<and>
   removeSite (Suc 0) [exFolder, exBookmark] exBookmark (Some BOOKMARK) =
     Some [exFolder, exBookmark\<lparr>parentFolderId := Num 0, customTitle := None, tags := []\<rparr>]"
proof -
  have h1: "getSiteIndex [exFolder, exBookmark] exBookmark (Some BOOKMARK) = Some 1"
    by (simp add: getSiteIndex_def isBookmarkFolderTag_def ex_defs)
  have h2: "\<forall>i. getSiteIndex [exFolder, exBookmark] exBookmark (Some BOOKMARK) = Some i \<longrightarrow>
        \<not> isBookmarkFolder (tags ([exFolder, exBookmark] ! i))"
    unfolding h1 by (simp add: isBookmarkFolder_def ex_defs)
  have h3: "setRemove BOOKMARK (toSet (tags exBookmark)) = []"
    by (simp add: setRemove_def toSet_def ex_defs)
  have h4: "\<not> isBookmarkFolder (tags ([exFolder, exBookmark] ! 1))"
    by (simp add: isBookmarkFolder_def ex_defs)
  from remove_tag_keeps_record [OF h2, of 0] h1 h3 h4
  show ?thesis by simp
qed

subsection \<open>The next folder id is new\<close>

lemma foldl_upper_start:
  assumes refl: "\<And>a. R a a"
    and trans: "\<And>a b c. R a b \<Longrightarrow> R b c \<Longrightarrow> R a c"
    and left: "\<And>a b. R a (f a b)"
  shows "R x (foldl f x xs)"
proof (induction xs arbitrary: x)
  case Nil
  show ?case by (simp add: refl)
next
  case (Cons y ys)
  have "R x (f x y)" by (rule left)
  moreover have "R (f x y) (foldl f (f x y) ys)" by (rule Cons.IH)
  ultimately show ?case by (simp add: trans[of x "f x y"])
qed

lemma foldl_upper_all:
  assumes refl: "\<And>a. R a a"
    and trans: "\<And>a b c. R a b \<Longrightarrow> R b c \<Longrightarrow> R a c"
    and left: "\<And>a b. R a (f a b)"
    and right: "\<And>a b. R b (f a b)"
    and mem: "s \<in> set xs"
  shows "R s (foldl f x xs)"
  using mem
proof (induction xs arbitrary: x)
  case Nil
  then show ?case by simp
next
  case (Cons y ys)
  show ?case
  proof (cases "s = y")
    case True
    have "R y (f x y)" by (rule right)
    moreover have "R (f x y) (foldl f (f x y) ys)"
      by (rule foldl_upper_start[where R=R and f=f, OF refl trans left])
    ultimately show ?thesis using True by (simp add: trans[of y "f x y"])
  next
    case False
    with Cons.prems have "s \<in> set ys" by simp
    from Cons.IH[OF this] show ?thesis by simp
  qed
qed

lemma foldl_choice_in_set:
  assumes "\<And>a b. f a b = a \<or> f a b = b"
  shows "foldl f x xs \<in> set (x # xs)"
proof (induction xs arbitrary: x)
  case Nil
  show ?case by simp
next
  case (Cons y ys)
  from Cons.IH[of "f x y"] assms[of x y] show ?case by auto
qed


lemma toInt_orElse_zero: "toInt (orElse v (Num 0)) = toInt v"
  by (cases v) (simp_all add: orElse_def)

lemma getNextFolderIdItem_upper:
  assumes mem: "s \<in> set sites" and num: "folderId s = Num n"
  shows "\<exists>r. getNextFolderIdItem sites = Some r \<and> n \<le> toInt (folderId r)"
proof -
  define R :: "site \<Rightarrow> site \<Rightarrow> bool" where "R = (\<lambda>a b. folderId a = Undefined \<or>
    (folderId b \<noteq> Undefined \<and> toInt (folderId a) \<le> toInt (folderId b)))"
  define f :: "site \<Rightarrow> site \<Rightarrow> site" where "f = (\<lambda>a b. if greaterThanZero (folderIdComparator b a) then b else a)"
  have refl: "\<And>a. R a a" by (simp add: R_def)
  have trans: "\<And>a b c. R a b \<Longrightarrow> R b c \<Longrightarrow> R a c" by (auto simp: R_def)
  have left: "\<And>a b. R a (f a b)"
    by (auto simp: R_def f_def folderIdComparator_def Let_def split: if_splits)
  have right: "\<And>a b. R b (f a b)"
    by (auto simp: R_def f_def folderIdComparator_def Let_def split: if_splits)
  from mem obtain x xs where sites: "sites = x # xs" by (cases sites) auto
  have r: "getNextFolderIdItem sites = Some (foldl f x xs)"
    by (simp add: getNextFolderIdItem_def sites f_def)
  have "R s (foldl f x xs)"
  proof (cases "s = x")
    case True
    then show ?thesis
      using foldl_upper_start[where R=R and f=f and x=x and xs=xs] refl trans left
      by blast
  next
    case False
    with mem sites have "s \<in> set xs" by simp
    then show ?thesis
      using foldl_upper_all[where R=R and f=f and s=s and xs=xs and x=x] refl trans left right
      by blast
  qed
  with num have "n \<le> toInt (folderId (foldl f x xs))" by (simp add: R_def)
  with r show ?thesis by blast
qed

lemma getNextFolderIdItem_in_set:
  assumes "getNextFolderIdItem sites = Some r"
  shows "r \<in> set sites"
proof (cases sites)
  case Nil
  with assms show ?thesis by (simp add: getNextFolderIdItem_def)
next
  case (Cons x xs)
  define f :: "site \<Rightarrow> site \<Rightarrow> site" where "f = (\<lambda>a b. if greaterThanZero (folderIdComparator b a) then b else a)"
  have "\<And>a b. f a b = a \<or> f a b = b" by (simp add: f_def)
  then have "foldl f x xs \<in> set (x # xs)" by (rule foldl_choice_in_set)
  with assms Cons show ?thesis by (simp add: getNextFolderIdItem_def f_def)
qed

text \<open>
  C3 states that \<^verbatim>\<open>getNextFolderId\<close> is greater than every \<open>folderId\<close> of the list, for
  every list. The sum \<^verbatim>\<open>+ 1\<close> is a double: \<open>2 ^ 53 + 1\<close> is half way between the
  doubles \<open>2 ^ 53\<close> and \<open>2 ^ 53 + 2\<close> and is rounded to the first. For a list whose one
  folder has the id \<open>2 ^ 53\<close> the result is \<open>2 ^ 53\<close>, which is not greater.
\<close>

theorem getNextFolderId_counterexample:
  "folderId exHugeFolder = Num 9007199254740992 \<and>
   getNextFolderId (Some [exHugeFolder]) = 9007199254740992"
proof -
  have p: "plusOne 9007199254740992 = 9007199254740992"
    by code_simp
  have f: "folderId exHugeFolder = Num 9007199254740992"
    by (simp add: exHugeFolder_def emptySite_def)
  have "getNextFolderId (Some [exHugeFolder]) = plusOne 9007199254740992"
    by (simp add: getNextFolderId_def getNextFolderIdItem_def orElse_def f)
  with p f show ?thesis by simp
qed

text \<open>
  C3, as the code has it. For every list whose folder ids are safe integers (less than
  \<open>2 ^ 53\<close> in absolute value), \<^verbatim>\<open>getNextFolderId\<close> is greater than every \<open>folderId\<close>
  that a record of the list has, and it is \<^verbatim>\<open>1\<close> when the list is empty or no record of
  it has a \<open>folderId\<close>.
\<close>

theorem getNextFolderId_greater:
  assumes safe: "\<forall>s\<in>set sites. \<forall>n. folderId s = Num n \<longrightarrow> \<bar>n\<bar> < 2 ^ 53"
  shows "(\<forall>s\<in>set sites. \<forall>n. folderId s = Num n \<longrightarrow> n < getNextFolderId (Some sites)) \<and>
         ((\<forall>s\<in>set sites. folderId s = Undefined) \<longrightarrow> getNextFolderId (Some sites) = 1)"
proof (intro conjI ballI allI impI)
  fix s n
  assume "s \<in> set sites" "folderId s = Num n"
  from getNextFolderIdItem_upper[OF this] obtain r where
    r: "getNextFolderIdItem sites = Some r" and le: "n \<le> toInt (folderId r)" by blast
  from getNextFolderIdItem_in_set[OF r] have mem: "r \<in> set sites" .
  have bound: "\<bar>toInt (folderId r)\<bar> < 2 ^ 53"
  proof (cases "folderId r")
    case (Num k)
    with safe mem have "\<bar>k\<bar> < 2 ^ 53" by blast
    with Num show ?thesis by simp
  qed simp_all
  then have "\<bar>toInt (folderId r) + 1\<bar> \<le> 2 ^ 53" by simp
  then have "plusOne (toInt (folderId r)) = toInt (folderId r) + 1" by (rule plusOne_exact)
  with r le show "n < getNextFolderId (Some sites)"
    by (simp add: getNextFolderId_def toInt_orElse_zero)
next
  assume all: "\<forall>s\<in>set sites. folderId s = Undefined"
  show "getNextFolderId (Some sites) = 1"
  proof (cases "getNextFolderIdItem sites")
    case None
    then show ?thesis by (simp add: getNextFolderId_def plusOne_0)
  next
    case (Some r)
    from getNextFolderIdItem_in_set[OF Some] all have "folderId r = Undefined" by blast
    with Some show ?thesis by (simp add: getNextFolderId_def orElse_def plusOne_0)
  qed
qed

theorem getNextFolderId_greater_witness:
  "folderId exFolder = Num 1 \<and> \<bar>1::int\<bar> < 2 ^ 53 \<and>
   1 < getNextFolderId (Some [exChild1, exFolder, exChild2]) \<and>
   getNextFolderId (Some [exChild1, exChild2]) = 1 \<and> getNextFolderId (Some []) = 1"
proof -
  have h1: "exFolder \<in> set [exChild1, exFolder, exChild2]" by simp
  have h2: "folderId exFolder = Num 1" by (simp add: ex_defs)
  have h3: "\<forall>s\<in>set [exChild1, exChild2]. folderId s = Undefined" by (simp add: ex_defs)
  have h4: "\<forall>s\<in>set ([]::site list). folderId s = Undefined" by simp
  have s1: "\<forall>s\<in>set [exChild1, exFolder, exChild2]. \<forall>n. folderId s = Num n \<longrightarrow> \<bar>n\<bar> < 2 ^ 53"
    by (simp add: ex_defs)
  have s2: "\<forall>s\<in>set [exChild1, exChild2]. \<forall>n. folderId s = Num n \<longrightarrow> \<bar>n\<bar> < 2 ^ 53"
    by (simp add: ex_defs)
  have s3: "\<forall>s\<in>set ([]::site list). \<forall>n. folderId s = Num n \<longrightarrow> \<bar>n\<bar> < 2 ^ 53"
    by simp
  from getNextFolderId_greater[OF s1] h1 h2
  have "1 < getNextFolderId (Some [exChild1, exFolder, exChild2])" by blast
  moreover from getNextFolderId_greater[OF s2] h3
  have "getNextFolderId (Some [exChild1, exChild2]) = 1" by blast
  moreover from getNextFolderId_greater[OF s3] h4
  have "getNextFolderId (Some []) = 1" by blast
  ultimately show ?thesis using h2 by simp
qed

subsection \<open>The origin of a location\<close>

text \<open>
  C6. \<^verbatim>\<open>getOrigin\<close> gives \<^verbatim>\<open>"https://example.com:8080"\<close> for
  \<^verbatim>\<open>"https://example.com:8080/path"\<close> (with a parser that finds in it the protocol
  \<^verbatim>\<open>https:\<close>, the slashes and the host \<^verbatim>\<open>example.com:8080\<close>, as Node's does); it
  gives the constant \<^verbatim>\<open>"file:///"\<close> for every string that starts with \<^verbatim>\<open>file://\<close>;
  it gives \<^verbatim>\<open>null\<close> for every value that is not a string; and for any other string in
  which the parser finds no host or no protocol it gives \<^verbatim>\<open>null\<close>. The cases are in
  the order of the code: a string that starts with \<^verbatim>\<open>file://\<close> is never parsed.
\<close>

theorem getOrigin_cases:
  "(urlParse ''https://example.com:8080/path'' =
      \<lparr>protocol = Some ''https:'', slashes = True, host = Some ''example.com:8080''\<rparr> \<longrightarrow>
    getOrigin urlParse (JString ''https://example.com:8080/path'') =
      Some ''https://example.com:8080'') \<and>
   (prefix ''file://'' s \<longrightarrow> getOrigin urlParse (JString s) = Some ''file:///'') \<and>
   ((\<forall>str. v \<noteq> JString str) \<longrightarrow> getOrigin urlParse v = None) \<and>
   (\<not> prefix ''file://'' s' \<and>
    (\<not> truthyStr (host (urlParse s')) \<or> \<not> truthyStr (protocol (urlParse s'))) \<longrightarrow>
    getOrigin urlParse (JString s') = None)"
proof (intro conjI impI)
  assume "urlParse ''https://example.com:8080/path'' =
      \<lparr>protocol = Some ''https:'', slashes = True, host = Some ''example.com:8080''\<rparr>"
  then show "getOrigin urlParse (JString ''https://example.com:8080/path'') =
      Some ''https://example.com:8080''"
    by (simp add: getOrigin_def)
next
  assume "prefix ''file://'' s"
  then show "getOrigin urlParse (JString s) = Some ''file:///''"
    by (simp add: getOrigin_def)
next
  assume "\<forall>str. v \<noteq> JString str"
  then show "getOrigin urlParse v = None"
    by (cases v) (simp_all add: getOrigin_def)
next
  assume a: "\<not> prefix ''file://'' s' \<and>
    (\<not> truthyStr (host (urlParse s')) \<or> \<not> truthyStr (protocol (urlParse s')))"
  show "getOrigin urlParse (JString s') = None"
  proof (cases "host (urlParse s')")
    case None
    with a show ?thesis by (simp add: getOrigin_def)
  next
    case h: (Some h)
    show ?thesis
    proof (cases "protocol (urlParse s')")
      case None
      with a h show ?thesis by (simp add: getOrigin_def)
    next
      case (Some p)
      with a h show ?thesis by (auto simp: getOrigin_def)
    qed
  qed
qed

theorem getOrigin_cases_witness:
  "getOrigin exUrlParse (JString ''https://example.com:8080/path'') =
     Some ''https://example.com:8080'' \<and>
   getOrigin exUrlParse (JString ''file:///Users/x'') = Some ''file:///'' \<and>
   getOrigin exUrlParse (JNumber 42) = None \<and>
   getOrigin exUrlParse (JString ''example.com/path'') = None"
proof -
  have h1: "exUrlParse ''https://example.com:8080/path'' =
      \<lparr>protocol = Some ''https:'', slashes = True, host = Some ''example.com:8080''\<rparr>"
    by (simp add: exUrlParse_def)
  have h2: "prefix ''file://'' ''file:///Users/x''" by simp
  have h3: "\<forall>str. JNumber 42 \<noteq> JString str" by simp
  have h4: "\<not> prefix ''file://'' ''example.com/path'' \<and>
    (\<not> truthyStr (host (exUrlParse ''example.com/path'')) \<or>
     \<not> truthyStr (protocol (exUrlParse ''example.com/path'')))"
    by (simp add: exUrlParse_def)
  from getOrigin_cases[of exUrlParse "''file:///Users/x''" "JNumber 42" "''example.com/path''"]
    h1 h2 h3 h4
  show ?thesis by blast
qed

subsection \<open>The recent history\<close>

lemma mset_insertBy: "mset (insertBy c x xs) = add_mset x (mset xs)"
  by (induction xs) simp_all

lemma mset_immutableSort: "mset (immutableSort c xs) = mset xs"
  by (induction xs) (simp_all add: immutableSort_def mset_insertBy)

lemma set_insertBy: "set (insertBy c x xs) = insert x (set xs)"
  by (induction xs) auto

lemma sorted_insertBy_recent:
  "sorted_wrt (\<lambda>a b. toInt (orElse (lastAccessedTime b) (Num 0)) \<le>
                      toInt (orElse (lastAccessedTime a) (Num 0))) xs \<Longrightarrow>
   sorted_wrt (\<lambda>a b. toInt (orElse (lastAccessedTime b) (Num 0)) \<le>
                      toInt (orElse (lastAccessedTime a) (Num 0)))
     (insertBy recentComparator x xs)"
proof (induction xs)
  case Nil
  show ?case by simp
next
  case (Cons y ys)
  show ?case
  proof (cases "recentComparator x y \<le> 0")
    case True
    then have xy: "toInt (orElse (lastAccessedTime y) (Num 0)) \<le>
                   toInt (orElse (lastAccessedTime x) (Num 0))"
      by (simp add: recentComparator_def)
    from Cons.prems have "\<forall>z\<in>set ys. toInt (orElse (lastAccessedTime z) (Num 0)) \<le>
                   toInt (orElse (lastAccessedTime y) (Num 0))" by simp
    with xy have "\<forall>z\<in>set ys. toInt (orElse (lastAccessedTime z) (Num 0)) \<le>
                   toInt (orElse (lastAccessedTime x) (Num 0))" by fastforce
    with True xy Cons.prems show ?thesis by simp
  next
    case False
    then have yx: "toInt (orElse (lastAccessedTime x) (Num 0)) \<le>
                   toInt (orElse (lastAccessedTime y) (Num 0))"
      by (simp add: recentComparator_def)
    from Cons.prems have tl: "sorted_wrt (\<lambda>a b. toInt (orElse (lastAccessedTime b) (Num 0)) \<le>
                      toInt (orElse (lastAccessedTime a) (Num 0))) ys" by simp
    from Cons.prems have "\<forall>z\<in>set ys. toInt (orElse (lastAccessedTime z) (Num 0)) \<le>
                   toInt (orElse (lastAccessedTime y) (Num 0))" by simp
    with yx False Cons.IH[OF tl] show ?thesis by (simp add: set_insertBy)
  qed
qed

lemma sorted_immutableSort_recent:
  "sorted_wrt (\<lambda>a b. toInt (orElse (lastAccessedTime b) (Num 0)) \<le>
                      toInt (orElse (lastAccessedTime a) (Num 0)))
     (immutableSort recentComparator xs)"
proof (induction xs)
  case Nil
  show ?case by (simp add: immutableSort_def)
next
  case (Cons x xs)
  from sorted_insertBy_recent[OF Cons.IH, of x] show ?case by (simp add: immutableSort_def)
qed

text \<open>
  C7. \<^verbatim>\<open>filterOutNonRecents\<close> returns the records that have tags, unchanged and in their
  order, followed by the first \<open>historySize\<close> of the records without tags, these sorted by
  descending \<open>lastAccessedTime\<close>, a missing one counting as \<^verbatim>\<open>0\<close>: the list \<open>history\<close>
  is a permutation of the records without tags, it is sorted, and the result takes at most
  \<open>historySize\<close> entries from its front.
\<close>

theorem filterOutNonRecents_result:
  "\<exists>history.
     mset history = mset (filter (\<lambda>s. tags s = []) sites) \<and>
     sorted_wrt (\<lambda>a b. toInt (orElse (lastAccessedTime b) (Num 0)) \<le>
                        toInt (orElse (lastAccessedTime a) (Num 0))) history \<and>
     filterOutNonRecents historySize sites =
       filter (\<lambda>s. tags s \<noteq> []) sites @ take (nat historySize) history"
proof -
  let ?h = "immutableSort recentComparator (filter (\<lambda>s. tags s = []) sites)"
  have "mset ?h = mset (filter (\<lambda>s. tags s = []) sites)" by (rule mset_immutableSort)
  moreover have "sorted_wrt (\<lambda>a b. toInt (orElse (lastAccessedTime b) (Num 0)) \<le>
                        toInt (orElse (lastAccessedTime a) (Num 0))) ?h"
    by (rule sorted_immutableSort_recent)
  moreover have "filterOutNonRecents historySize sites =
       filter (\<lambda>s. tags s \<noteq> []) sites @ take (nat historySize) ?h"
    by (simp add: filterOutNonRecents_def)
  ultimately show ?thesis by blast
qed

theorem filterOutNonRecents_result_witness:
  "(\<exists>history.
     mset history = mset (filter (\<lambda>s. tags s = []) [exChild1, exFolder, exChild2, exBookmark]) \<and>
     sorted_wrt (\<lambda>a b. toInt (orElse (lastAccessedTime b) (Num 0)) \<le>
                        toInt (orElse (lastAccessedTime a) (Num 0))) history \<and>
     filterOutNonRecents 1 [exChild1, exFolder, exChild2, exBookmark] =
       filter (\<lambda>s. tags s \<noteq> []) [exChild1, exFolder, exChild2, exBookmark] @
       take (nat 1) history) \<and>
   filterOutNonRecents 1 [exChild1, exFolder, exChild2, exBookmark] =
     [exFolder, exBookmark, exChild2]"
proof -
  have "filterOutNonRecents 1 [exChild1, exFolder, exChild2, exBookmark] =
     [exFolder, exBookmark, exChild2]"
    by (simp add: filterOutNonRecents_def immutableSort_def recentComparator_def orElse_def
        ex_defs)
  with filterOutNonRecents_result[of "[exChild1, exFolder, exChild2, exBookmark]" 1]
  show ?thesis by blast
qed

subsection \<open>Moving a folder into its descendant\<close>




subsection \<open>Removing a folder\<close>

lemma forEachM_no_tags:
  "\<forall>child\<in>set childSites. tags child = [] \<Longrightarrow>
   forEachM (\<lambda>ss child. forEachM (f child) (tags child) ss) childSites sites = Some sites"
  by (induction childSites) simp_all

text \<open>
  C1 states that removing a folder with two history entries as children deletes the three
  records. History entries have no tags, and \<^verbatim>\<open>removeSite\<close> deletes a record only when
  it has no tags and no tag is requested: on the list of \<open>exFolder\<close> and its two children
  the three records remain, with the tag requested or without.
\<close>

theorem remove_folder_counterexample:
  "removeSite 3 [exFolder, exChild1, exChild2] exFolder (Some BOOKMARK_FOLDER) =
     Some [exFolder\<lparr>parentFolderId := Num 0, customTitle := None, tags := []\<rparr>,
           exChild1, exChild2] \<and>
   removeSite 3 [exFolder, exChild1, exChild2] exFolder None =
     Some [exFolder\<lparr>lastAccessedTime := Null\<rparr>, exChild1, exChild2]"
  by (simp add: numeral_3_eq_3 getSiteIndex_def isBookmarkFolderTag_def isBookmarkFolder_def
      orElse_def setRemove_def toSet_def Let_def ex_defs)

text \<open>
  C1, as the code has it. When \<^verbatim>\<open>removeSite\<close> with the tag \<^verbatim>\<open>BOOKMARK_FOLDER\<close> finds
  the folder and every child of the folder (a record whose \<open>parentFolderId\<close> is the folder's
  \<open>folderId\<close>) is a history entry without tags, nothing is deleted: the loop over the
  children's tags has nothing to do, the children and all other records stay as they are,
  and the folder's record stays at its index with the tag removed, \<open>parentFolderId\<close> set to
  \<^verbatim>\<open>0\<close> and \<open>customTitle\<close> deleted. The result has the length of the list.
\<close>

theorem remove_folder_keeps_children:
  assumes "getSiteIndex sites siteDetail (Some BOOKMARK_FOLDER) = Some i"
    and "\<forall>s\<in>set sites. parentFolderId s = folderId (sites ! i) \<longrightarrow> tags s = []"
  shows "removeSite (Suc fuel) sites siteDetail (Some BOOKMARK_FOLDER) =
           Some (sites[i := (sites ! i)\<lparr>parentFolderId := Num 0, customTitle := None,
                   tags := setRemove BOOKMARK_FOLDER (toSet (tags (sites ! i)))\<rparr>]) \<and>
         length (sites[i := (sites ! i)\<lparr>parentFolderId := Num 0, customTitle := None,
                   tags := setRemove BOOKMARK_FOLDER (toSet (tags (sites ! i)))\<rparr>]) =
           length sites"
proof -
  from assms(2)
  have "\<forall>child\<in>set (filter (\<lambda>s. parentFolderId s = folderId (sites ! i)) sites).
          tags child = []" by simp
  then have loop: "forEachM (\<lambda>ss child.
       forEachM (\<lambda>ss' t. removeSite fuel ss' child (Some t)) (tags child) ss)
       (filter (\<lambda>s. parentFolderId s = folderId (sites ! i)) sites) sites = Some sites"
    by (rule forEachM_no_tags)
  show ?thesis
    by (simp add: assms(1) Let_def loop)
qed

theorem remove_folder_keeps_children_witness:
  "getSiteIndex [exFolder, exChild1, exChild2] exFolder (Some BOOKMARK_FOLDER) = Some 0 \<and>
   removeSite (Suc 0) [exFolder, exChild1, exChild2] exFolder (Some BOOKMARK_FOLDER) =
     Some [exFolder\<lparr>parentFolderId := Num 0, customTitle := None, tags := []\<rparr>,
           exChild1, exChild2]"
proof -
  have h1: "getSiteIndex [exFolder, exChild1, exChild2] exFolder (Some BOOKMARK_FOLDER) = Some 0"
    by (simp add: getSiteIndex_def isBookmarkFolderTag_def isBookmarkFolder_def ex_defs)
  have h2: "\<forall>s\<in>set [exFolder, exChild1, exChild2].
      parentFolderId s = folderId ([exFolder, exChild1, exChild2] ! 0) \<longrightarrow> tags s = []"
    by (simp add: ex_defs)
  have h3: "setRemove BOOKMARK_FOLDER (toSet (tags exFolder)) = []"
    by (simp add: setRemove_def toSet_def ex_defs)
  from remove_folder_keeps_children[OF h1 h2, of 0] h1 h3
  show ?thesis by simp
qed

subsection \<open>Adding a record twice\<close>

lemma addSite_not_folder:
  assumes "tagOrFirst tagArg siteDetail \<noteq> Some BOOKMARK_FOLDER"
  shows "addSite fuel now sites siteDetail tagArg None =
     Some (case getSiteIndex sites siteDetail (tagOrFirst tagArg siteDetail) of
             None \<Rightarrow> sites @ [mergeSiteDetails now None siteDetail
                                (tagOrFirst tagArg siteDetail) (folderId siteDetail)]
           | Some i \<Rightarrow> sites[i := mergeSiteDetails now (Some (sites ! i)) siteDetail
                                (tagOrFirst tagArg siteDetail) (folderId siteDetail)])"
  using assms by (simp add: addSite_def Let_def split: option.splits)

lemma getSiteIndex_not_folder:
  "tag \<noteq> Some BOOKMARK_FOLDER \<Longrightarrow>
   getSiteIndex sites siteDetail tag =
     findIndex (\<lambda>s. location s = location siteDetail \<and>
                     orElse (partitionNumber s) (Num 0) =
                     orElse (partitionNumber siteDetail) (Num 0)) sites"
  by (simp add: getSiteIndex_def isBookmarkFolderTag_def)

lemma orElse_zero_cases:
  "orElse v (Num 0) = Num 0 \<longleftrightarrow> \<not> truthy v"
  by (cases v) (auto simp: orElse_def)

lemma orElse_Number: "v \<noteq> Undefined \<Longrightarrow> orElse (Number v) (Num 0) = orElse v (Num 0)"
  by (cases v) (simp_all add: orElse_def)

lemma merge_keeps_identity:
  assumes loc: "location new \<noteq> Some []"
    and old: "case old of None \<Rightarrow> True
              | Some s \<Rightarrow> orElse (partitionNumber s) (Num 0) =
                          orElse (partitionNumber new) (Num 0)"
  shows "location (mergeSiteDetails now old new tag fid) = location new \<and>
         orElse (partitionNumber (mergeSiteDetails now old new tag fid)) (Num 0) =
         orElse (partitionNumber new) (Num 0)"
proof
  from loc show "location (mergeSiteDetails now old new tag fid) = location new"
    by (cases "location new") (simp_all add: merge_location_eq)
next
  show "orElse (partitionNumber (mergeSiteDetails now old new tag fid)) (Num 0) =
         orElse (partitionNumber new) (Num 0)"
  proof (cases "partitionNumber new = Undefined")
    case False
    then show ?thesis by (simp add: merge_partitionNumber_eq orElse_Number)
  next
    case True
    have "\<not> truthy (andGet old partitionNumber)"
    proof (cases old)
      case None
      then show ?thesis by (simp add: andGet_def)
    next
      case (Some s)
      with old True have "orElse (partitionNumber s) (Num 0) = Num 0"
        by (simp add: orElse_def)
      then have "\<not> truthy (partitionNumber s)" by (simp add: orElse_zero_cases)
      with Some show ?thesis by (simp add: andGet_def)
    qed
    with True show ?thesis by (simp add: merge_partitionNumber_eq)
  qed
qed

text \<open>
  C4 states that a second \<^verbatim>\<open>addSite\<close> with the same location and partition number
  updates the record of the first, for every record that is not a folder. A location that
  is the empty string is falsy: \<^verbatim>\<open>mergeSiteDetails\<close> does not copy it, the record that
  is added has no location, and the second call, which looks for the empty string, does not
  find it and adds a second record.
\<close>

theorem add_twice_counterexample:
  "addSite 0 1000 [] exEmptyLocation None None = Some [exAddedEmptyLocation] \<and>
   addSite 0 1000 [exAddedEmptyLocation] exEmptyLocation None None =
     Some [exAddedEmptyLocation, exAddedEmptyLocation]"
  by (simp add: addSite_def tagOrFirst_def getSiteIndex_def isBookmarkFolderTag_def
      mergeSiteDetails_def isBookmarkTag_def orElse_def andGet_def andGetStr_def Let_def
      plusOne_0 exEmptyLocation_def exAddedEmptyLocation_def emptySite_def)

text \<open>
  C4, as the code has it. For every list and every record that is not a folder and whose
  location is missing or is a string that is not empty: after \<^verbatim>\<open>addSite\<close> of the record,
  \<^verbatim>\<open>addSite\<close> of a record that is not a folder and has the same location and the same
  partition number (\<^verbatim>\<open>0\<close> when missing) finds a record at an index \<open>j\<close> and replaces it
  there by the merged record. The length of the list does not change.
\<close>

theorem add_twice_in_place:
  assumes t1: "tagOrFirst tag1 r \<noteq> Some BOOKMARK_FOLDER"
    and t2: "tagOrFirst tag2 r2 \<noteq> Some BOOKMARK_FOLDER"
    and loc: "location r \<noteq> Some []"
    and same_loc: "location r2 = location r"
    and same_pn: "orElse (partitionNumber r2) (Num 0) = orElse (partitionNumber r) (Num 0)"
  shows "\<exists>sites1 j.
    addSite fuel1 now1 sites r tag1 None = Some sites1 \<and>
    getSiteIndex sites1 r2 (tagOrFirst tag2 r2) = Some j \<and> j < length sites1 \<and>
    addSite fuel2 now2 sites1 r2 tag2 None =
      Some (sites1[j := mergeSiteDetails now2 (Some (sites1 ! j)) r2 (tagOrFirst tag2 r2)
                           (folderId r2)]) \<and>
    length (sites1[j := mergeSiteDetails now2 (Some (sites1 ! j)) r2 (tagOrFirst tag2 r2)
                           (folderId r2)]) = length sites1"
proof -
  let ?P = "\<lambda>s. location s = location r \<and>
                 orElse (partitionNumber s) (Num 0) = orElse (partitionNumber r) (Num 0)"
  let ?t1 = "tagOrFirst tag1 r"
  let ?t2 = "tagOrFirst tag2 r2"
  have idx1: "getSiteIndex sites r ?t1 = findIndex ?P sites"
    using t1 by (rule getSiteIndex_not_folder)
  obtain sites1 where s1: "addSite fuel1 now1 sites r tag1 None = Some sites1"
    and mem: "\<exists>m\<in>set sites1. ?P m"
  proof (cases "findIndex ?P sites")
    case None
    let ?m = "mergeSiteDetails now1 None r ?t1 (folderId r)"
    have "?P ?m" using merge_keeps_identity[of r None now1 ?t1 "folderId r"] loc by simp
    moreover have "addSite fuel1 now1 sites r tag1 None = Some (sites @ [?m])"
      using None idx1 by (simp add: addSite_not_folder[OF t1])
    ultimately show ?thesis using that[of "sites @ [?m]"] by simp
  next
    case (Some i)
    let ?m = "mergeSiteDetails now1 (Some (sites ! i)) r ?t1 (folderId r)"
    from findIndex_SomeD[OF Some] have i: "i < length sites" and Pi: "?P (sites ! i)"
      by simp_all
    have "?P ?m"
      using merge_keeps_identity[of r "Some (sites ! i)" now1 ?t1 "folderId r"] loc Pi by simp
    moreover have "addSite fuel1 now1 sites r tag1 None = Some (sites[i := ?m])"
      using Some idx1 by (simp add: addSite_not_folder[OF t1])
    moreover have "?m \<in> set (sites[i := ?m])" using i by (rule set_update_memI)
    ultimately show ?thesis using that[of "sites[i := ?m]"] by blast
  qed
  have idx2: "getSiteIndex sites1 r2 ?t2 = findIndex ?P sites1"
    using getSiteIndex_not_folder[OF t2, of sites1 r2] same_loc same_pn by simp
  from mem have "findIndex ?P sites1 \<noteq> None" by (simp add: findIndex_None_iff)
  then obtain j where j: "findIndex ?P sites1 = Some j" by blast
  from findIndex_SomeD[OF j] have jl: "j < length sites1" by simp
  have "addSite fuel2 now2 sites1 r2 tag2 None =
      Some (sites1[j := mergeSiteDetails now2 (Some (sites1 ! j)) r2 ?t2 (folderId r2)])"
    using j idx2 by (simp add: addSite_not_folder[OF t2])
  with s1 idx2 j jl show ?thesis by simp
qed

theorem add_twice_in_place_witness:
  "tagOrFirst None exChild1 \<noteq> Some BOOKMARK_FOLDER \<and>
   location exChild1 \<noteq> Some [] \<and>
   (\<exists>sites1 j.
      addSite 0 1000 [exFolder] exChild1 None None = Some sites1 \<and>
      getSiteIndex sites1 exChild1 (tagOrFirst None exChild1) = Some j \<and> j < length sites1 \<and>
      addSite 0 2000 sites1 exChild1 None None =
        Some (sites1[j := mergeSiteDetails 2000 (Some (sites1 ! j)) exChild1
                             (tagOrFirst None exChild1) (folderId exChild1)]) \<and>
      length (sites1[j := mergeSiteDetails 2000 (Some (sites1 ! j)) exChild1
                             (tagOrFirst None exChild1) (folderId exChild1)]) = length sites1)"
proof -
  have h1: "tagOrFirst None exChild1 \<noteq> Some BOOKMARK_FOLDER"
    by (simp add: tagOrFirst_def ex_defs)
  have h2: "location exChild1 \<noteq> Some []" by (simp add: ex_defs)
  have h3: "location exChild1 = location exChild1" by simp
  have h4: "orElse (partitionNumber exChild1) (Num 0) = orElse (partitionNumber exChild1) (Num 0)"
    by simp
  from add_twice_in_place[OF h1 h1 h2 h3 h4, of 0 1000 "[exFolder]" 0 2000] h1 h2
  show ?thesis by blast
qed

subsection \<open>Adding two folders with the same parent and title\<close>

lemma findIndex_append_last:
  "\<forall>y\<in>set xs. \<not> P y \<Longrightarrow>
   findIndex P (xs @ [x]) = (if P x then Some (length xs) else None)"
  by (induction xs) simp_all

lemma find_append_last:
  "\<forall>y\<in>set xs. \<not> P y \<Longrightarrow> find P (xs @ [x]) = (if P x then Some x else None)"
  by (induction xs) simp_all

lemma find_None_iff_set: "find P xs = None \<longleftrightarrow> (\<forall>y\<in>set xs. \<not> P y)"
  by (induction xs) simp_all

lemma filter_nil_nth:
  "(\<forall>i<length xs. \<not> P (xs ! i)) \<Longrightarrow> filter P xs = []"
  by (auto simp: filter_empty_conv in_set_conv_nth)

lemma merge_new_folder:
  assumes "customTitle d = Some ct" and "parentFolderId d \<noteq> Null" and "f \<noteq> 0"
  shows "tags (mergeSiteDetails now None d (Some BOOKMARK_FOLDER) (Num f)) = [BOOKMARK_FOLDER]"
    and "folderId (mergeSiteDetails now None d (Some BOOKMARK_FOLDER) (Num f)) = Num f"
    and "parentFolderId (mergeSiteDetails now None d (Some BOOKMARK_FOLDER) (Num f)) =
           parentFolderId d"
    and "customTitle (mergeSiteDetails now None d (Some BOOKMARK_FOLDER) (Num f)) = Some ct"
proof -
  show "tags (mergeSiteDetails now None d (Some BOOKMARK_FOLDER) (Num f)) = [BOOKMARK_FOLDER]"
    by (simp add: merge_tags_eq setAdd_def toSet_def)
  show "folderId (mergeSiteDetails now None d (Some BOOKMARK_FOLDER) (Num f)) = Num f"
    using assms(3) by (simp add: merge_folderId_eq)
  show "parentFolderId (mergeSiteDetails now None d (Some BOOKMARK_FOLDER) (Num f)) =
           parentFolderId d"
    using assms(2) by (cases "parentFolderId d") (simp_all add: merge_parentFolderId_eq andGet_def)
  show "customTitle (mergeSiteDetails now None d (Some BOOKMARK_FOLDER) (Num f)) = Some ct"
    using assms(1) by (simp add: merge_customTitle_eq)
qed

lemma addSite_new_folder_with_id:
  assumes "folderId d = Num f" and "f \<noteq> 0"
    and "getSiteIndex sites d (Some BOOKMARK_FOLDER) = None"
  shows "addSite fuel now sites d (Some BOOKMARK_FOLDER) None =
     (case find (isDuplicateFolder d) sites of
        None \<Rightarrow> Some (sites @ [mergeSiteDetails now None d (Some BOOKMARK_FOLDER) (Num f)])
      | Some dupFolder \<Rightarrow>
          (case removeSite fuel sites dupFolder (Some BOOKMARK_FOLDER) of
             None \<Rightarrow> None
           | Some sites' \<Rightarrow>
               Some (sites' @ [mergeSiteDetails now None d (Some BOOKMARK_FOLDER) (Num f)])))"
  using assms by (simp add: addSite_def tagOrFirst_def Let_def split: option.splits)

lemmas folder_defs = exNewFolder_def exAddedFolder_def exImport1_def exImport2_def

text \<open>
  C5 states that of two folders added with the same \<open>parentFolderId\<close> and \<open>customTitle\<close>
  at most one survives. \<^verbatim>\<open>addSite\<close> looks for a duplicate only when the details carry
  a \<open>folderId\<close> (the import path). Two folders added without one get the ids 1 and 2 from
  \<^verbatim>\<open>getNextFolderId\<close>, and both are in the list, with the same parent and title.
\<close>

theorem add_folders_without_ids_counterexample:
  "addSite 0 1000 [] exNewFolder (Some BOOKMARK_FOLDER) None = Some [exAddedFolder 1] \<and>
   addSite 0 1000 [exAddedFolder 1] exNewFolder (Some BOOKMARK_FOLDER) None =
     Some [exAddedFolder 1, exAddedFolder 2] \<and>
   filter (isDuplicateFolder exNewFolder) [exAddedFolder 1, exAddedFolder 2] =
     [exAddedFolder 1, exAddedFolder 2]"
proof (intro conjI)
  have m: "\<And>n. n \<noteq> 0 \<Longrightarrow>
      mergeSiteDetails 1000 None exNewFolder (Some BOOKMARK_FOLDER) (Num n) = exAddedFolder n"
    by (simp add: mergeSiteDetails_def isBookmarkTag_def isBookmarkFolderTag_def orElse_def
        andGet_def andGetStr_def setAdd_def toSet_def Let_def folder_defs emptySite_def)
  have n1: "getNextFolderId (Some []) = 1"
    by (simp add: getNextFolderId_def getNextFolderIdItem_def plusOne_0)
  have n2: "getNextFolderId (Some [exAddedFolder 1]) = 2"
    by (simp add: getNextFolderId_def getNextFolderIdItem_def orElse_def plusOne_1 folder_defs
        emptySite_def)
  show "addSite 0 1000 [] exNewFolder (Some BOOKMARK_FOLDER) None = Some [exAddedFolder 1]"
    by (simp add: addSite_def tagOrFirst_def getSiteIndex_def isBookmarkFolderTag_def
        Let_def n1 m) (simp add: folder_defs emptySite_def)
  show "addSite 0 1000 [exAddedFolder 1] exNewFolder (Some BOOKMARK_FOLDER) None =
     Some [exAddedFolder 1, exAddedFolder 2]"
    by (simp add: addSite_def tagOrFirst_def getSiteIndex_def isBookmarkFolderTag_def
        isBookmarkFolder_def Let_def n2 m) (simp add: folder_defs emptySite_def)
  show "filter (isDuplicateFolder exNewFolder) [exAddedFolder 1, exAddedFolder 2] =
     [exAddedFolder 1, exAddedFolder 2]"
    by (simp add: isDuplicateFolder_def isBookmarkFolder_def folder_defs emptySite_def)
qed

text \<open>
  C5, as the code has it. Let two folder details have the same \<open>customTitle\<close>, a string, and
  the same \<open>parentFolderId\<close>, not \<^verbatim>\<open>null\<close>, and each a \<open>folderId\<close> that is a number, not
  \<^verbatim>\<open>0\<close>, different from the other's and from that of every folder of the list; and let
  no folder of the list have their parent and title. Then \<^verbatim>\<open>addSite\<close> of the first with
  the tag \<^verbatim>\<open>BOOKMARK_FOLDER\<close> returns a list, and whenever \<^verbatim>\<open>addSite\<close> of the second
  returns on that list, exactly one folder of the result has that parent and title: the
  duplicate search finds the first folder and \<^verbatim>\<open>removeSite\<close> takes its tag away. The
  second call returns when the first folder has no children (no record of the list has its
  id as \<open>parentFolderId\<close>, nor has the folder itself).
\<close>

theorem add_folders_with_ids:
  assumes ct1: "customTitle d1 = Some ct" and ct2: "customTitle d2 = Some ct"
    and p: "parentFolderId d2 = parentFolderId d1" and pnn: "parentFolderId d1 \<noteq> Null"
    and id1: "folderId d1 = Num f1" and id2: "folderId d2 = Num f2"
    and nz1: "f1 \<noteq> 0" and nz2: "f2 \<noteq> 0" and ne: "f1 \<noteq> f2"
    and fresh: "\<forall>s\<in>set sites. isBookmarkFolder (tags s) \<longrightarrow>
                  folderId s \<noteq> Num f1 \<and> folderId s \<noteq> Num f2"
    and nodup: "\<forall>s\<in>set sites. \<not> isDuplicateFolder d1 s"
  shows "\<exists>sites1.
           addSite fuel1 now1 sites d1 (Some BOOKMARK_FOLDER) None = Some sites1 \<and>
           (\<forall>sites2. addSite fuel2 now2 sites1 d2 (Some BOOKMARK_FOLDER) None = Some sites2 \<longrightarrow>
              length (filter (isDuplicateFolder d2) sites2) = 1) \<and>
           (0 < fuel2 \<and> parentFolderId d1 \<noteq> Num f1 \<and>
            (\<forall>s\<in>set sites. parentFolderId s \<noteq> Num f1) \<longrightarrow>
              (\<exists>sites2. addSite fuel2 now2 sites1 d2 (Some BOOKMARK_FOLDER) None = Some sites2))"
proof -
  let ?m1 = "mergeSiteDetails now1 None d1 (Some BOOKMARK_FOLDER) (Num f1)"
  let ?m2 = "mergeSiteDetails now2 None d2 (Some BOOKMARK_FOLDER) (Num f2)"
  let ?sites1 = "sites @ [?m1]"
  note m1 = merge_new_folder[OF ct1 pnn nz1, of now1]
  from pnn p have pnn2: "parentFolderId d2 \<noteq> Null" by simp
  note m2 = merge_new_folder[OF ct2 pnn2 nz2, of now2]
  have dupeq: "\<And>s. isDuplicateFolder d2 s = isDuplicateFolder d1 s"
    by (simp add: isDuplicateFolder_def p ct1 ct2)
  have m1dup: "isDuplicateFolder d2 ?m1"
    by (simp add: isDuplicateFolder_def isBookmarkFolder_def m1 p ct2)
  have m2dup: "isDuplicateFolder d2 ?m2"
    by (simp add: isDuplicateFolder_def isBookmarkFolder_def m2 ct2)
  have idx1: "getSiteIndex sites d1 (Some BOOKMARK_FOLDER) = None"
    using fresh by (simp add: getSiteIndex_def isBookmarkFolderTag_def findIndex_None_iff id1)
  have nd1: "find (isDuplicateFolder d1) sites = None"
    using nodup by (simp add: find_None_iff_set)
  have a1: "addSite fuel1 now1 sites d1 (Some BOOKMARK_FOLDER) None = Some ?sites1"
    by (simp add: addSite_new_folder_with_id[OF id1 nz1 idx1] nd1)
  have idx2: "getSiteIndex ?sites1 d2 (Some BOOKMARK_FOLDER) = None"
    using fresh ne
    by (simp add: getSiteIndex_def isBookmarkFolderTag_def findIndex_append_last id2 m1)
  have find2: "find (isDuplicateFolder d2) ?sites1 = Some ?m1"
    using nodup m1dup by (simp add: find_append_last dupeq)
  have a2: "addSite fuel2 now2 ?sites1 d2 (Some BOOKMARK_FOLDER) None =
      (case removeSite fuel2 ?sites1 ?m1 (Some BOOKMARK_FOLDER) of
         None \<Rightarrow> None
       | Some sites' \<Rightarrow> Some (sites' @ [?m2]))"
    by (simp add: addSite_new_folder_with_id[OF id2 nz2 idx2] find2)
  have idxm: "getSiteIndex ?sites1 ?m1 (Some BOOKMARK_FOLDER) = Some (length sites)"
    using fresh
    by (simp add: getSiteIndex_def isBookmarkFolderTag_def findIndex_append_last m1
        isBookmarkFolder_def)
  have partA: "\<forall>sites2. addSite fuel2 now2 ?sites1 d2 (Some BOOKMARK_FOLDER) None = Some sites2 \<longrightarrow>
              length (filter (isDuplicateFolder d2) sites2) = 1"
  proof (intro allI impI)
    fix sites2
    assume "addSite fuel2 now2 ?sites1 d2 (Some BOOKMARK_FOLDER) None = Some sites2"
    with a2 obtain s' where rm: "removeSite fuel2 ?sites1 ?m1 (Some BOOKMARK_FOLDER) = Some s'"
      and s2: "sites2 = s' @ [?m2]"
      by (auto split: option.splits)
    from removeSite_tag_rel[OF rm] idxm
    have len: "length s' = Suc (length sites)"
      and keep: "\<forall>i<Suc (length sites). s' ! i = ?sites1 ! i \<or> customTitle (s' ! i) = None"
      and last: "customTitle (s' ! length sites) = None"
      by simp_all
    have "\<forall>i<length s'. \<not> isDuplicateFolder d2 (s' ! i)"
    proof (intro allI impI)
      fix i
      assume i: "i < length s'"
      show "\<not> isDuplicateFolder d2 (s' ! i)"
      proof (cases "i = length sites")
        case True
        with last show ?thesis by (simp add: isDuplicateFolder_def ct2)
      next
        case False
        with i len have il: "i < length sites" by simp
        from il have "i < Suc (length sites)" by simp
        from keep[rule_format, OF this]
        have "s' ! i = ?sites1 ! i \<or> customTitle (s' ! i) = None" .
        with il have "s' ! i = sites ! i \<or> customTitle (s' ! i) = None"
          by (simp add: nth_append)
        then show ?thesis
        proof
          assume "s' ! i = sites ! i"
          with nodup il show ?thesis by (simp add: dupeq)
        next
          assume "customTitle (s' ! i) = None"
          then show ?thesis by (simp add: isDuplicateFolder_def ct2)
        qed
      qed
    qed
    then have "filter (isDuplicateFolder d2) s' = []" by (rule filter_nil_nth)
    with m2dup s2 show "length (filter (isDuplicateFolder d2) sites2) = 1" by simp
  qed
  have partB: "0 < fuel2 \<and> parentFolderId d1 \<noteq> Num f1 \<and>
            (\<forall>s\<in>set sites. parentFolderId s \<noteq> Num f1) \<longrightarrow>
              (\<exists>sites2. addSite fuel2 now2 ?sites1 d2 (Some BOOKMARK_FOLDER) None = Some sites2)"
  proof
    assume h: "0 < fuel2 \<and> parentFolderId d1 \<noteq> Num f1 \<and>
            (\<forall>s\<in>set sites. parentFolderId s \<noteq> Num f1)"
    then obtain k where k: "fuel2 = Suc k" by (cases fuel2) auto
    from h have nochild: "filter (\<lambda>s. parentFolderId s = Num f1) sites = []"
      by (simp add: filter_empty_conv)
    from h have notself: "parentFolderId d1 \<noteq> Num f1" by simp
    have "removeSite (Suc k) ?sites1 ?m1 (Some BOOKMARK_FOLDER) \<noteq> None"
      by (simp add: idxm Let_def m1 nochild notself)
    then obtain s' where "removeSite fuel2 ?sites1 ?m1 (Some BOOKMARK_FOLDER) = Some s'"
      unfolding k by blast
    with a2 have "addSite fuel2 now2 ?sites1 d2 (Some BOOKMARK_FOLDER) None = Some (s' @ [?m2])"
      by simp
    then show "\<exists>sites2. addSite fuel2 now2 ?sites1 d2 (Some BOOKMARK_FOLDER) None = Some sites2"
      by (rule exI)
  qed
  show ?thesis
    by (rule exI[of _ ?sites1]) (intro conjI a1 partA partB)
qed

theorem add_folders_with_ids_witness:
  "addSite 1 1000 [exBookmark] exImport1 (Some BOOKMARK_FOLDER) None =
     Some [exBookmark, exAddedFolder 1] \<and>
   addSite 1 1000 [exBookmark, exAddedFolder 1] exImport2 (Some BOOKMARK_FOLDER) None =
     Some [exBookmark,
           (exAddedFolder 1)\<lparr>parentFolderId := Num 0, customTitle := None, tags := []\<rparr>,
           exAddedFolder 2] \<and>
   length (filter (isDuplicateFolder exImport2)
     [exBookmark,
      (exAddedFolder 1)\<lparr>parentFolderId := Num 0, customTitle := None, tags := []\<rparr>,
      exAddedFolder 2]) = 1"
proof -
  have m1: "mergeSiteDetails 1000 None exImport1 (Some BOOKMARK_FOLDER) (Num 1) = exAddedFolder 1"
    by (simp add: mergeSiteDetails_def isBookmarkTag_def isBookmarkFolderTag_def orElse_def
        andGet_def andGetStr_def setAdd_def toSet_def Let_def folder_defs emptySite_def)
  have m2: "mergeSiteDetails 1000 None exImport2 (Some BOOKMARK_FOLDER) (Num 2) = exAddedFolder 2"
    by (simp add: mergeSiteDetails_def isBookmarkTag_def isBookmarkFolderTag_def orElse_def
        andGet_def andGetStr_def setAdd_def toSet_def Let_def folder_defs emptySite_def)
  have f1: "folderId exImport1 = Num 1" and f2: "folderId exImport2 = Num 2"
    by (simp_all add: folder_defs emptySite_def)
  have nz1: "(1::int) \<noteq> 0" and nz2: "(2::int) \<noteq> 0" and ne: "(1::int) \<noteq> 2"
    by simp_all
  have i1: "getSiteIndex [exBookmark] exImport1 (Some BOOKMARK_FOLDER) = None"
    by (simp add: getSiteIndex_def isBookmarkFolderTag_def isBookmarkFolder_def ex_defs)
  have i2: "getSiteIndex [exBookmark, exAddedFolder 1] exImport2 (Some BOOKMARK_FOLDER) = None"
    by (simp add: getSiteIndex_def isBookmarkFolderTag_def isBookmarkFolder_def ex_defs
        folder_defs)
  have d1: "find (isDuplicateFolder exImport1) [exBookmark] = None"
    by (simp add: isDuplicateFolder_def isBookmarkFolder_def ex_defs)
  have d2: "find (isDuplicateFolder exImport2) [exBookmark, exAddedFolder 1] =
              Some (exAddedFolder 1)"
    by (simp add: isDuplicateFolder_def isBookmarkFolder_def ex_defs folder_defs)
  have r: "removeSite 1 [exBookmark, exAddedFolder 1] (exAddedFolder 1) (Some BOOKMARK_FOLDER) =
     Some [exBookmark,
           (exAddedFolder 1)\<lparr>parentFolderId := Num 0, customTitle := None, tags := []\<rparr>]"
    by (simp add: getSiteIndex_def isBookmarkFolderTag_def isBookmarkFolder_def
        setRemove_def toSet_def Let_def ex_defs folder_defs)
  have a1: "addSite 1 1000 [exBookmark] exImport1 (Some BOOKMARK_FOLDER) None =
     Some [exBookmark, exAddedFolder 1]"
    unfolding addSite_new_folder_with_id[OF f1 nz1 i1] d1 m1 by simp
  have a2: "addSite 1 1000 [exBookmark, exAddedFolder 1] exImport2 (Some BOOKMARK_FOLDER) None =
     Some [exBookmark,
           (exAddedFolder 1)\<lparr>parentFolderId := Num 0, customTitle := None, tags := []\<rparr>,
           exAddedFolder 2]"
    by (simp only: addSite_new_folder_with_id[OF f2 nz2 i2] d2 option.case r m2
        append_Cons append_Nil)
  have h1: "customTitle exImport1 = Some ''Folder''" and h2: "customTitle exImport2 = Some ''Folder''"
    and h3: "parentFolderId exImport2 = parentFolderId exImport1"
    and h4: "parentFolderId exImport1 \<noteq> Null"
    by (simp_all add: folder_defs emptySite_def)
  have h5: "\<forall>s\<in>set [exBookmark]. isBookmarkFolder (tags s) \<longrightarrow>
                  folderId s \<noteq> Num 1 \<and> folderId s \<noteq> Num 2"
    by (simp add: isBookmarkFolder_def ex_defs)
  have h6: "\<forall>s\<in>set [exBookmark]. \<not> isDuplicateFolder exImport1 s"
    by (simp add: isDuplicateFolder_def isBookmarkFolder_def ex_defs)
  from add_folders_with_ids[OF h1 h2 h3 h4 f1 f2 nz1 nz2 ne h5 h6, of 1 1000 1 1000]
  obtain sites1 where s1: "addSite 1 1000 [exBookmark] exImport1 (Some BOOKMARK_FOLDER) None =
      Some sites1"
    and all: "\<forall>sites2. addSite 1 1000 sites1 exImport2 (Some BOOKMARK_FOLDER) None = Some sites2
        \<longrightarrow> length (filter (isDuplicateFolder exImport2) sites2) = 1"
    by blast
  from s1 a1 have "sites1 = [exBookmark, exAddedFolder 1]" by simp
  with all a2 have "length (filter (isDuplicateFolder exImport2)
     [exBookmark,
      (exAddedFolder 1)\<lparr>parentFolderId := Num 0, customTitle := None, tags := []\<rparr>,
      exAddedFolder 2]) = 1" by blast
  with a1 a2 show ?thesis by simp
qed

end
